theory Spec2Isabelle
  imports Complex_Main
begin

section \<open>Floating-point values\<close>

text \<open>
  The waveform magnitudes and every derived average are numpy \<open>float64\<close> values. They are
  modelled as exact rationals extended with the three special values the code can
  produce: both infinities (the reciprocal of a zero sample) and NaN (the mean of an empty
  list, a missing table cell). Signed zeros are not modelled, and the magnitudes and
  averages are not rounded; the lookback, where rounding decides which row is read, rounds
  every result to binary64 (see \<open>float64\<close> below). Arithmetic follows numpy: no operation
  raises, division by zero yields an infinity or NaN, and every comparison with NaN is
  false.
\<close>

datatype pyfloat = Fin rat | PInf | NInf | NaN

fun flt :: "pyfloat \<Rightarrow> pyfloat \<Rightarrow> bool" where
  "flt NaN _ = False"
| "flt _ NaN = False"
| "flt (Fin a) (Fin b) = (a < b)"
| "flt (Fin a) PInf = True"
| "flt (Fin a) NInf = False"
| "flt PInf _ = False"
| "flt NInf (Fin b) = True"
| "flt NInf PInf = True"
| "flt NInf NInf = False"

fun feq :: "pyfloat \<Rightarrow> pyfloat \<Rightarrow> bool" where
  "feq NaN _ = False"
| "feq _ NaN = False"
| "feq a b = (a = b)"

definition fle :: "pyfloat \<Rightarrow> pyfloat \<Rightarrow> bool" where
  "fle a b = (flt a b \<or> feq a b)"

definition fge :: "pyfloat \<Rightarrow> pyfloat \<Rightarrow> bool" where
  "fge a b = fle b a"

fun fadd :: "pyfloat \<Rightarrow> pyfloat \<Rightarrow> pyfloat" where
  "fadd NaN _ = NaN"
| "fadd _ NaN = NaN"
| "fadd (Fin a) (Fin b) = Fin (a + b)"
| "fadd (Fin a) PInf = PInf"
| "fadd (Fin a) NInf = NInf"
| "fadd PInf (Fin b) = PInf"
| "fadd PInf PInf = PInf"
| "fadd PInf NInf = NaN"
| "fadd NInf (Fin b) = NInf"
| "fadd NInf PInf = NaN"
| "fadd NInf NInf = NInf"

definition fneg :: "pyfloat \<Rightarrow> pyfloat" where
  "fneg a = (case a of Fin r \<Rightarrow> Fin (- r) | PInf \<Rightarrow> NInf | NInf \<Rightarrow> PInf | NaN \<Rightarrow> NaN)"

definition inf_times :: "pyfloat \<Rightarrow> rat \<Rightarrow> pyfloat" where
  \<comment> \<open>An infinity scaled by a finite factor: \<open>inf * 0\<close> is NaN, a negative factor flips it.\<close>
  "inf_times i b = (if b = 0 then NaN else if 0 < b then i else fneg i)"

fun fmul :: "pyfloat \<Rightarrow> pyfloat \<Rightarrow> pyfloat" where
  "fmul NaN _ = NaN"
| "fmul _ NaN = NaN"
| "fmul (Fin a) (Fin b) = Fin (a * b)"
| "fmul (Fin a) PInf = inf_times PInf a"
| "fmul (Fin a) NInf = inf_times NInf a"
| "fmul PInf (Fin b) = inf_times PInf b"
| "fmul PInf PInf = PInf"
| "fmul PInf NInf = NInf"
| "fmul NInf (Fin b) = inf_times NInf b"
| "fmul NInf PInf = NInf"
| "fmul NInf NInf = PInf"

fun fdiv :: "pyfloat \<Rightarrow> pyfloat \<Rightarrow> pyfloat" where
  "fdiv NaN _ = NaN"
| "fdiv _ NaN = NaN"
| "fdiv (Fin a) (Fin b) =
     (if b = 0 then (if a = 0 then NaN else if 0 < a then PInf else NInf) else Fin (a / b))"
| "fdiv (Fin a) PInf = Fin 0"
| "fdiv (Fin a) NInf = Fin 0"
| "fdiv PInf (Fin b) = (if 0 \<le> b then PInf else NInf)"
| "fdiv NInf (Fin b) = (if 0 \<le> b then NInf else PInf)"
| "fdiv PInf PInf = NaN"
| "fdiv PInf NInf = NaN"
| "fdiv NInf PInf = NaN"
| "fdiv NInf NInf = NaN"

definition isnan :: "pyfloat \<Rightarrow> bool" where
  "isnan a = (a = NaN)"

definition np_mean :: "pyfloat list \<Rightarrow> pyfloat" where
  \<comment> \<open>\<open>np.mean\<close> of a list: the sum over the count; on the empty list \<open>0.0 / 0\<close>, NaN.\<close>
  "np_mean xs = fdiv (foldl fadd (Fin 0) xs) (Fin (of_nat (length xs)))"

section \<open>Errors\<close>

datatype error = IndexError | ValueError | KeyError | ZeroDivisionError

section \<open>Peak detection\<close>

text \<open>
  \<open>scipy.signal.find_peaks(x)\<close>, called without conditions, returns the indices of the
  local maxima of \<open>x\<close>: a sample strictly above its left neighbour whose next unequal
  sample is strictly below it; for a flat top the middle index is reported. The first and
  the last sample are never reported. The two loops are those of the library routine.
\<close>

function look_ahead :: "pyfloat list \<Rightarrow> nat \<Rightarrow> nat \<Rightarrow> nat" where
  "look_ahead x i i_ahead =
     (if i_ahead < length x - 1 \<and> feq (x ! i_ahead) (x ! i)
      then look_ahead x i (i_ahead + 1) else i_ahead)"
  by pat_completeness auto
termination
  by (relation "measure (\<lambda>(x, i, i_ahead). length x - 1 - i_ahead)") auto

declare look_ahead.simps [simp del]

lemma look_ahead_ge: "i_ahead \<le> look_ahead x i i_ahead"
proof (induction x i i_ahead rule: look_ahead.induct)
  case (1 x i i_ahead)
  show ?case
  proof (cases "i_ahead < length x - 1 \<and> feq (x ! i_ahead) (x ! i)")
    case True
    with 1 have "i_ahead + 1 \<le> look_ahead x i (i_ahead + 1)" by simp
    moreover from True have "look_ahead x i i_ahead = look_ahead x i (i_ahead + 1)"
      using look_ahead.simps [of x i i_ahead] by simp
    ultimately show ?thesis by simp
  next
    case False
    then have "look_ahead x i i_ahead = i_ahead"
      using look_ahead.simps [of x i i_ahead] by auto
    then show ?thesis by simp
  qed
qed

function local_maxima :: "pyfloat list \<Rightarrow> nat \<Rightarrow> nat list" where
  "local_maxima x i =
     (if i < length x - 1 then
        (if flt (x ! (i - 1)) (x ! i) then
           (let i_ahead = look_ahead x i (i + 1) in
            if flt (x ! i_ahead) (x ! i)
            then ((i + (i_ahead - 1)) div 2) # local_maxima x (i_ahead + 1)
            else local_maxima x (i + 1))
         else local_maxima x (i + 1))
      else [])"
  by pat_completeness auto
termination
proof (relation "measure (\<lambda>(x, i). length x - 1 - i)")
  show "wf (measure (\<lambda>(x, i). length x - 1 - i))" by simp
next
  fix x :: "pyfloat list" and i xa :: nat
  assume lt: "i < length x - 1" and xa: "xa = look_ahead x i (i + 1)"
  have "i + 1 \<le> xa" unfolding xa by (rule look_ahead_ge)
  with lt show "((x, xa + 1), (x, i)) \<in> measure (\<lambda>(x, i). length x - 1 - i)" by simp
qed auto

declare local_maxima.simps [simp del]

definition find_peaks :: "pyfloat list \<Rightarrow> nat list" where
  "find_peaks x = local_maxima x 1"

section \<open>Systolic and diastolic peaks\<close>

text \<open>
  The frame handed to \<open>get_sys_bp\<close> and \<open>get_dias_bp\<close>: its row labels (\<open>df.index\<close>) and
  the columns of \<open>df.values\<close>. A peak is a pair of a row label and a magnitude.
\<close>

record frame =
  index :: "int list"
  columns :: "pyfloat list list"

type_synonym peak = "int \<times> pyfloat"

definition column :: "frame \<Rightarrow> nat \<Rightarrow> error + pyfloat list" where
  \<comment> \<open>\<open>df.values[:, j]\<close>: IndexError when the frame has no column \<open>j\<close>.\<close>
  "column df j = (if j < length (columns df) then Inr (columns df ! j) else Inl IndexError)"

definition first_channel :: "frame \<Rightarrow> error + pyfloat list" where
  \<comment> \<open>\<open>try: vals = df.values[:,0]  except: vals = df.values[:,1]\<close>\<close>
  "first_channel df = (case column df 0 of Inr vals \<Rightarrow> Inr vals | Inl _ \<Rightarrow> column df 1)"

definition take_at :: "'a list \<Rightarrow> nat list \<Rightarrow> error + 'a list" where
  \<comment> \<open>Indexing an array with an array of positions, \<open>arr[peaks]\<close>: IndexError when a
      position is out of bounds.\<close>
  "take_at arr peaks =
     (if list_all (\<lambda>p. p < length arr) peaks then Inr (map (\<lambda>p. arr ! p) peaks)
      else Inl IndexError)"

definition keep_of_pair :: "peak \<Rightarrow> peak \<Rightarrow> peak" where
  \<comment> \<open>The body of the pairing loop for \<open>a = max_values[i]\<close>, \<open>b = max_values[i+1]\<close>.\<close>
  "keep_of_pair a b = (if flt (snd a) (snd b) then b else a)"

function pair_loop :: "peak list \<Rightarrow> nat \<Rightarrow> peak list \<Rightarrow> peak list" where
  "pair_loop max_values i only =
     (if i + 1 < length max_values
      then pair_loop max_values (i + 2)
             (only @ [keep_of_pair (max_values ! i) (max_values ! (i + 1))])
      else only)"
  by pat_completeness auto
termination
  by (relation "measure (\<lambda>(max_values, i, only). length max_values - i)") auto

declare pair_loop.simps [simp del]

definition reciprocal :: "pyfloat list \<Rightarrow> pyfloat list" where
  \<comment> \<open>\<open>1 / vals\<close>, element by element.\<close>
  "reciprocal vals = map (\<lambda>v. fdiv (Fin 1) v) vals"

definition peaks_of :: "frame \<Rightarrow> pyfloat list \<Rightarrow> nat list \<Rightarrow> error + peak list" where
  \<comment> \<open>\<open>[(i, v) for i, v in zip(df.index[peaks], vals[peaks])]\<close>\<close>
  "peaks_of df vals peaks =
     (case take_at (index df) peaks of
        Inl e \<Rightarrow> Inl e
      | Inr labels \<Rightarrow>
          (case take_at vals peaks of
             Inl e \<Rightarrow> Inl e
           | Inr mags \<Rightarrow> Inr (zip labels mags)))"

definition get_sys_bp :: "frame \<Rightarrow> error + peak list" where
  "get_sys_bp df =
     (case first_channel df of
        Inl e \<Rightarrow> Inl e
      | Inr vals \<Rightarrow>
          (case peaks_of df vals (find_peaks vals) of
             Inl e \<Rightarrow> Inl e
           | Inr max_values \<Rightarrow> Inr (pair_loop max_values 0 [])))"

definition get_dias_bp :: "frame \<Rightarrow> error + peak list" where
  "get_dias_bp df =
     (case first_channel df of
        Inl e \<Rightarrow> Inl e
      | Inr vals \<Rightarrow>
          (case peaks_of df vals (find_peaks (reciprocal vals)) of
             Inl e \<Rightarrow> Inl e
           | Inr max_values \<Rightarrow> Inr (pair_loop max_values 0 [])))"

section \<open>Mean arterial pressure\<close>

definition broadcast2 :: "('a \<Rightarrow> 'b \<Rightarrow> 'c) \<Rightarrow> 'a list \<Rightarrow> 'b list \<Rightarrow> error + 'c list" where
  \<comment> \<open>A binary numpy operation on two one-dimensional arrays: element by element when the
      lengths agree, an array of length one is stretched, anything else is the ValueError
      "operands could not be broadcast together".\<close>
  "broadcast2 f xs ys =
     (if length xs = length ys then Inr (map2 f xs ys)
      else if length xs = 1 then Inr (map (\<lambda>y. f (hd xs) y) ys)
      else if length ys = 1 then Inr (map (\<lambda>x. f x (hd ys)) xs)
      else Inl ValueError)"

definition mean_axis0 :: "int list \<Rightarrow> int list \<Rightarrow> error + pyfloat list" where
  \<comment> \<open>\<open>np.mean([sidx, didx], axis=0)\<close>: the two arrays are stacked into one array of two
      rows, which numpy refuses with a ValueError when their lengths differ; the mean of
      each column is the sum of its two entries over two.\<close>
  "mean_axis0 sidx didx =
     (if length sidx = length didx
      then Inr (map2 (\<lambda>s d. fdiv (fadd (Fin (of_int s)) (Fin (of_int d))) (Fin 2)) sidx didx)
      else Inl ValueError)"

definition calc_map :: "peak list \<Rightarrow> peak list \<Rightarrow> error + (pyfloat list \<times> pyfloat list)" where
  "calc_map sys dias =
     (let sbps = map snd sys; dbps = map snd dias;
          sidx = map fst sys; didx = map fst dias
      in case broadcast2 fadd sbps (map (\<lambda>d. fmul (Fin 2) d) dbps) of
           Inl e \<Rightarrow> Inl e
         | Inr totals \<Rightarrow>
             (let maps = map (\<lambda>v. fdiv v (Fin 3)) totals
              in case mean_axis0 sidx didx of
                   Inl e \<Rightarrow> Inl e
                 | Inr indices \<Rightarrow> Inr (indices, maps)))"

section \<open>Window aggregation\<close>

text \<open>
  The waveform frame given to \<open>avg_bp\<close>: one record per row, with the row label, the
  value of the waveform channel, and the \<open>ts\<close> and \<open>wave\<close> columns. Timestamps are counted
  in nanoseconds. Label slices \<open>df.loc[a:b]\<close> keep the rows whose label lies in the closed
  interval, which is what pandas does on an increasing index.
\<close>

record sample =
  label :: int
  val :: pyfloat
  ts :: int
  wave_id :: string

record window_row =
  wave :: string
  start_window :: int
  end_window :: int
  start_window_time :: int
  end_window_time :: int
  avg_sys :: pyfloat
  avg_dias :: pyfloat
  avg_map :: pyfloat
  all_values :: "pyfloat list"

record summary_row = window_row +
  current_hypotensive :: int
  hypotensive_in_15 :: pyfloat
  lookbacks :: "(string \<times> pyfloat) list"
  include_in_model :: "int option"

definition py_range :: "int \<Rightarrow> int \<Rightarrow> int \<Rightarrow> error + int list" where
  \<comment> \<open>\<open>range(start, stop, step)\<close>: ValueError on a zero step; otherwise the values
      \<open>start + k * step\<close> before \<open>stop\<close> (after it, for a negative step).\<close>
  "py_range start stop step =
     (if step = 0 then Inl ValueError
      else Inr (map (\<lambda>k. start + int k * step)
             [0..<nat (if 0 < step then (stop - start + step - 1) div step
                       else (start - stop - step - 1) div (- step))]))"

definition loc_slice :: "sample list \<Rightarrow> int \<Rightarrow> int \<Rightarrow> sample list" where
  \<comment> \<open>\<open>df.loc[a:b, :]\<close>\<close>
  "loc_slice df a b = filter (\<lambda>s. a \<le> label s \<and> label s \<le> b) df"

definition loc_ts :: "sample list \<Rightarrow> int \<Rightarrow> error + int" where
  \<comment> \<open>\<open>df.loc[l, 'ts']\<close>: KeyError when no row has the label.\<close>
  "loc_ts df l = (case find (\<lambda>s. label s = l) df of None \<Rightarrow> Inl KeyError | Some s \<Rightarrow> Inr (ts s))"

definition channel_frame :: "sample list \<Rightarrow> frame" where
  \<comment> \<open>The one-column frame of the waveform channel, \<open>df[[waveform_type]]\<close>.\<close>
  "channel_frame df = \<lparr>index = map label df, columns = [map val df]\<rparr>"

definition window_body :: "sample list \<Rightarrow> int \<Rightarrow> int \<Rightarrow> error + window_row option" where
  \<comment> \<open>One pass of the loop of \<open>avg_bp\<close>; \<open>Inr None\<close> is the \<open>continue\<close> after a KeyError.\<close>
  "window_body df time_chunk cur_window =
     (let df_sub = loc_slice df (cur_window - time_chunk) cur_window;
          x_sub = channel_frame df_sub
      in case get_sys_bp x_sub of
           Inl e \<Rightarrow> Inl e
         | Inr sys_pressure \<Rightarrow>
             (case get_dias_bp x_sub of
                Inl e \<Rightarrow> Inl e
              | Inr dias_pressure \<Rightarrow>
                  (let avg_sys = np_mean (map snd sys_pressure);
                       avg_dias = np_mean (map snd dias_pressure);
                       avg_maps = fdiv (fadd avg_sys (fmul (Fin 2) avg_dias)) (Fin 3);
                       all_values = map val df_sub
                   in case df of
                        [] \<Rightarrow> Inl IndexError
                      | s0 # _ \<Rightarrow>
                          (case loc_ts df_sub (cur_window - time_chunk) of
                             Inl e \<Rightarrow> (if e = KeyError then Inr None else Inl e)
                           | Inr t0 \<Rightarrow>
                               (case loc_ts df_sub cur_window of
                                  Inl e \<Rightarrow> (if e = KeyError then Inr None else Inl e)
                                | Inr t1 \<Rightarrow>
                                    Inr (Some \<lparr>wave = wave_id s0,
                                       start_window = cur_window - time_chunk,
                                       end_window = cur_window,
                                       start_window_time = t0, end_window_time = t1,
                                       avg_sys = avg_sys, avg_dias = avg_dias,
                                       avg_map = avg_maps, all_values = all_values\<rparr>))))))"

fun window_loop :: "sample list \<Rightarrow> int \<Rightarrow> int list \<Rightarrow> window_row list \<Rightarrow> error + window_row list" where
  "window_loop df time_chunk [] new_df = Inr new_df"
| "window_loop df time_chunk (cur_window # rest) new_df =
     (case window_body df time_chunk cur_window of
        Inl e \<Rightarrow> Inl e
      | Inr None \<Rightarrow> window_loop df time_chunk rest new_df
      | Inr (Some cur_row) \<Rightarrow> window_loop df time_chunk rest (new_df @ [cur_row]))"

definition shift_back :: "nat \<Rightarrow> int list \<Rightarrow> pyfloat list" where
  \<comment> \<open>\<open>column.shift(periods=-n)\<close> on an integer column: every value moves \<open>n\<close> rows up,
      the column becomes a float column and its last \<open>n\<close> cells are NaN.\<close>
  "shift_back n col =
     map (\<lambda>c. Fin (of_int c)) (drop n col) @ replicate (min n (length col)) NaN"

definition label_rows :: "window_row list \<Rightarrow> summary_row list" where
  \<comment> \<open>The two columns added after the loop. The result of \<open>sort_values\<close> is discarded by
      the code, so the rows stay in the order the loop appended them.\<close>
  "label_rows new_df =
     (let cur = map (\<lambda>r. if fle (avg_map r) (Fin 65) then 1 else 0) new_df;
          in15 = shift_back 15 cur
      in map (\<lambda>(r, c, h).
            \<lparr>wave = wave r, start_window = start_window r, end_window = end_window r,
             start_window_time = start_window_time r, end_window_time = end_window_time r,
             avg_sys = avg_sys r, avg_dias = avg_dias r, avg_map = avg_map r,
             all_values = all_values r,
             current_hypotensive = c, hypotensive_in_15 = h,
             lookbacks = [], include_in_model = None\<rparr>)
           (zip new_df (zip cur in15)))"

definition avg_bp :: "sample list \<Rightarrow> int \<Rightarrow> int \<Rightarrow> error + summary_row list option" where
  \<comment> \<open>\<open>Inr None\<close> is the \<open>return None\<close>: without an appended row the frame has no
      \<open>start_window_time\<close> column and the column selection raises the KeyError caught there.\<close>
  "avg_bp df time_chunk time_window =
     (case df of
        [] \<Rightarrow> Inl IndexError
      | s0 # _ \<Rightarrow>
          (let start_window = label s0;
               end_window = label (last df);
               time_window = (time_window * 1000) div 8;
               time_chunk = (time_chunk * 1000) div 8
           in case py_range (start_window + time_chunk) end_window time_window of
                Inl e \<Rightarrow> Inl e
              | Inr windows \<Rightarrow>
                  (case window_loop df time_chunk windows [] of
                     Inl e \<Rightarrow> Inl e
                   | Inr new_df \<Rightarrow>
                       (if new_df = [] then Inr None else Inr (Some (label_rows new_df))))))"

section \<open>Cleaning and lookback\<close>

definition clean_bp_summary :: "summary_row list \<Rightarrow> summary_row list" where
  "clean_bp_summary df =
     map (\<lambda>r. let good_sys = fge (avg_sys r) (Fin 30);
                   good_dias = fge (avg_dias r) (Fin 10);
                   has_outcome = \<not> isnan (hypotensive_in_15 r)
               in r\<lparr>include_in_model :=
                    Some (if good_sys \<and> good_dias \<and> has_outcome then 1 else 0)\<rparr>) df"

definition timedelta_seconds :: "int \<Rightarrow> int" where
  \<comment> \<open>The \<open>seconds\<close> attribute of a time difference of \<open>d\<close> nanoseconds: what is left after
      the whole days (rounded down) are taken out, in whole seconds.\<close>
  "timedelta_seconds d = (d mod (86400 * 1000000000)) div 1000000000"

text \<open>
  In the lookback the row that is read depends on how the quotient and the difference
  are rounded, so there the arithmetic is that of binary64 numbers: a result is the exact
  rational result rounded to the nearest number with a 53-bit significand, ties to the
  even significand. \<open>normalise\<close> scales a positive fraction \<open>a / b\<close> by powers of two until
  it lies between \<open>2^52\<close> and \<open>2^53\<close>; 1100 steps reach every normal binary64 magnitude.
  Overflow and subnormal results are outside the model.
\<close>

definition pow2 :: "int \<Rightarrow> rat" where
  "pow2 e = (if 0 \<le> e then 2 ^ nat e else 1 / 2 ^ nat (- e))"

definition round_half_even :: "int \<Rightarrow> int \<Rightarrow> int" where
  \<comment> \<open>The integer nearest to \<open>a / b\<close>, a tie going to the even one.\<close>
  "round_half_even a b =
     (let q = a div b; r = a mod b
      in if 2 * r < b then q else if b < 2 * r then q + 1
         else if even q then q else q + 1)"

fun normalise :: "nat \<Rightarrow> int \<Rightarrow> int \<Rightarrow> int \<Rightarrow> int \<times> int \<times> int" where
  "normalise 0 a b e = (a, b, e)"
| "normalise (Suc fuel) a b e =
     (if 9007199254740992 * b \<le> a then normalise fuel a (2 * b) (e + 1)
      else if a < 4503599627370496 * b then normalise fuel (2 * a) b (e - 1)
      else (a, b, e))"

definition float64_pos :: "rat \<Rightarrow> rat" where
  "float64_pos x =
     (case quotient_of x of (a, b) \<Rightarrow>
        (case normalise 1100 a b 0 of
           (a', b', e) \<Rightarrow> of_int (round_half_even a' b') * pow2 e))"

definition float64 :: "rat \<Rightarrow> rat" where
  \<comment> \<open>The binary64 number nearest to \<open>x\<close>.\<close>
  "float64 x = (if x = 0 then 0 else if 0 < x then float64_pos x else - float64_pos (- x))"

definition py_int :: "rat \<Rightarrow> int" where
  \<comment> \<open>\<open>int(x)\<close> of a float: truncation towards zero.\<close>
  "py_int x = (if 0 \<le> x then \<lfloor>x\<rfloor> else \<lceil>x\<rceil>)"

definition iloc :: "'a list \<Rightarrow> int \<Rightarrow> error + 'a" where
  \<comment> \<open>\<open>df.iloc[i]\<close>: a negative position counts from the end.\<close>
  "iloc df i =
     (if 0 \<le> i \<and> i < int (length df) then Inr (df ! nat i)
      else if i < 0 \<and> - int (length df) \<le> i then Inr (df ! nat (int (length df) + i))
      else Inl IndexError)"

fun str_nat :: "nat \<Rightarrow> string" where
  "str_nat n = (if n < 10 then [''0123456789'' ! n]
                else str_nat (n div 10) @ [''0123456789'' ! (n mod 10)])"

declare str_nat.simps [simp del]

definition str_int :: "int \<Rightarrow> string" where
  "str_int i = (if i < 0 then ''-'' @ str_nat (nat (- i)) else str_nat (nat i))"

definition lb_name :: "int \<Rightarrow> string" where
  \<comment> \<open>\<open>f"lb_{time}_map"\<close>\<close>
  "lb_name time = ''lb_'' @ str_int time @ ''_map''"

fun set_column :: "string \<Rightarrow> pyfloat \<Rightarrow> (string \<times> pyfloat) list \<Rightarrow> (string \<times> pyfloat) list" where
  "set_column name v [] = [(name, v)]"
| "set_column name v ((k, w) # cols) =
     (if k = name then (name, v) # cols else (k, w) # set_column name v cols)"

definition lb_value :: "summary_row list \<Rightarrow> rat \<Rightarrow> nat \<Rightarrow> error + pyfloat" where
  \<comment> \<open>The body of the loop over the rows (\<open>idx\<close> is its \<open>index\<close>); the table has the labels
      \<open>0, 1, 2, ...\<close> that \<open>reset_index\<close> gave it, so \<open>min(df.index)\<close> is \<open>0\<close>. In
      \<open>index - n_skips\<close> the integer label is converted to a float and the difference is
      rounded.\<close>
  "lb_value df n_skips idx =
     (let lb_idx = py_int (float64 (float64 (of_nat idx) - n_skips))
      in if lb_idx < 0 then Inr NaN
         else (case iloc df lb_idx of Inl e \<Rightarrow> Inl e | Inr lookback \<Rightarrow> Inr (avg_map lookback)))"

fun lb_loop :: "summary_row list \<Rightarrow> rat \<Rightarrow> nat list \<Rightarrow> error + pyfloat list" where
  "lb_loop df n_skips [] = Inr []"
| "lb_loop df n_skips (idx # rest) =
     (case lb_value df n_skips idx of
        Inl e \<Rightarrow> Inl e
      | Inr v \<Rightarrow> (case lb_loop df n_skips rest of Inl e \<Rightarrow> Inl e | Inr vs \<Rightarrow> Inr (v # vs)))"

definition create_lookback :: "summary_row list \<Rightarrow> int \<Rightarrow> error + summary_row list" where
  \<comment> \<open>\<open>time_diff.seconds / 60\<close> and \<open>time / time_diff\<close> are float divisions, each rounded;
      the comparison of the float \<open>time_diff\<close> with the integer \<open>time\<close> is exact.\<close>
  "create_lookback df time =
     (case df of
        r0 # r1 # _ \<Rightarrow>
          (let time_diff =
                 float64 (of_int (timedelta_seconds (start_window_time r1 - start_window_time r0)) / 60)
           in if time_diff > of_int time then Inl ValueError
              else if time_diff = 0 then Inl ZeroDivisionError
              else (let n_skips = float64 (float64 (of_int time) / time_diff)
                    in case lb_loop df n_skips [0..<length df] of
                         Inl e \<Rightarrow> Inl e
                       | Inr lb_array \<Rightarrow>
                           Inr (map2 (\<lambda>r v. r\<lparr>lookbacks := set_column (lb_name time) v (lookbacks r)\<rparr>)
                                  df lb_array)))
      | _ \<Rightarrow> Inl IndexError)"

section \<open>Auxiliary definitions and example data\<close>

text \<open>The rows one pass of the window loop appends: one row, or none after a \<open>continue\<close>.\<close>

definition emitted :: "sample list \<Rightarrow> int \<Rightarrow> int \<Rightarrow> window_row list" where
  "emitted df tc w = (case window_body df tc w of Inr (Some r) \<Rightarrow> [r] | _ \<Rightarrow> [])"

text \<open>
  A waveform of 18 groups of seven samples, one group every 125 samples (one second),
  alternating between a low of 40 and a high of 120 (100 in group 15), and the table
  \<open>avg_bp\<close> builds from it with a chunk and a step of one second.
\<close>

definition example_wave :: "sample list" where
  "example_wave =
     concat (map (\<lambda>k. map (\<lambda>j.
         \<lparr>label = 125 * int k + int j,
          val = Fin (if even j then 40 else if k = 15 then 100 else 120),
          ts = (125 * int k + int j) * 8000000,
          wave_id = ''a40001''\<rparr>) [0..<7]) [0..<18])"

definition example_table :: "summary_row list" where
  "example_table =
     map (\<lambda>k.
       \<lparr>wave = ''a40001'', start_window = 125 * int k, end_window = 125 * int k + 125,
        start_window_time = 1000000000 * int k, end_window_time = 1000000000 * int k + 1000000000,
        avg_sys = Fin (if k = 15 then 100 else 120), avg_dias = Fin 40,
        avg_map = Fin (if k = 15 then 60 else 200 / 3),
        all_values = map (\<lambda>j. Fin (if even j then 40 else if k = 15 then 100 else 120)) [0..<7] @ [Fin 40],
        current_hypotensive = (if k = 15 then 1 else 0),
        hypotensive_in_15 = (if k = 0 then Fin 1 else if k = 1 then Fin 0 else NaN),
        lookbacks = [], include_in_model = None\<rparr>) [0..<17]"

text \<open>A flat three-sample waveform, and one with a single maximum but two minima in its only window.\<close>

definition flat_wave :: "sample list" where
  "flat_wave = map (\<lambda>k. \<lparr>label = int k, val = Fin 70, ts = int k * 8000000, wave_id = ''a40001''\<rparr>) [0..<3]"

definition uneven_wave :: "sample list" where
  "uneven_wave =
     map (\<lambda>(l, v). \<lparr>label = l, val = Fin v, ts = l * 8000000, wave_id = ''a40001''\<rparr>)
       [(0, 5), (1, 1), (2, 5), (3, 1), (4, 5), (125, 5), (250, 3)]"

text \<open>
  Summary rows for the lookback and the cleaner: a row that starts at a given second with
  given averages and label, a table of rows a fixed number of seconds apart whose
  \<open>avg_map\<close> values are 10, 11, 12 and so on, and three rows around the plausibility floors.
\<close>

definition summary_of :: "int \<Rightarrow> pyfloat \<Rightarrow> pyfloat \<Rightarrow> pyfloat \<Rightarrow> summary_row" where
  "summary_of seconds sys dias in15 =
     \<lparr>wave = ''a40001'', start_window = seconds * 125, end_window = seconds * 125 + 125,
      start_window_time = seconds * 1000000000,
      end_window_time = seconds * 1000000000 + 1000000000,
      avg_sys = sys, avg_dias = dias,
      avg_map = fdiv (fadd sys (fmul (Fin 2) dias)) (Fin 3), all_values = [],
      current_hypotensive = (if fle (fdiv (fadd sys (fmul (Fin 2) dias)) (Fin 3)) (Fin 65) then 1 else 0),
      hypotensive_in_15 = in15, lookbacks = [], include_in_model = None\<rparr>"

definition spaced_table :: "nat \<Rightarrow> int \<Rightarrow> summary_row list" where
  "spaced_table rows gap =
     map (\<lambda>k. summary_of (int k * gap) (Fin (of_nat (10 + k))) (Fin (of_nat (10 + k))) NaN)
       [0..<rows]"

definition cleaner_rows :: "summary_row list" where
  "cleaner_rows =
     [summary_of 0 (Fin (299 / 10)) (Fin 80) (Fin 1),
      summary_of 60 (Fin 30) (Fin 10) (Fin 1),
      summary_of 120 (Fin 120) (Fin 80) NaN]"

section \<open>Properties of the peak detector and the pairing loop\<close>

text \<open>Every reported peak is a position of the series.\<close>

lemma look_ahead_le: "i_ahead \<le> length x - 1 \<Longrightarrow> look_ahead x i i_ahead \<le> length x - 1"
proof (induction x i i_ahead rule: look_ahead.induct)
  case (1 x i i_ahead)
  show ?case
  proof (cases "i_ahead < length x - 1 \<and> feq (x ! i_ahead) (x ! i)")
    case True
    with 1 have "look_ahead x i (i_ahead + 1) \<le> length x - 1" by simp
    moreover from True have "look_ahead x i i_ahead = look_ahead x i (i_ahead + 1)"
      using look_ahead.simps [of x i i_ahead] by simp
    ultimately show ?thesis by simp
  next
    case False
    then have "look_ahead x i i_ahead = i_ahead"
      using look_ahead.simps [of x i i_ahead] by auto
    with 1(2) show ?thesis by simp
  qed
qed

lemma local_maxima_bound: "p \<in> set (local_maxima x i) \<Longrightarrow> p < length x"
proof (induction x i rule: local_maxima.induct)
  case (1 x i)
  show ?case
  proof (cases "i < length x - 1")
    case False
    with 1(4) show ?thesis using local_maxima.simps [of x i] by simp
  next
    case lt: True
    show ?thesis
    proof (cases "flt (x ! (i - 1)) (x ! i)")
      case False
      with lt 1(4) have "p \<in> set (local_maxima x (i + 1))"
        using local_maxima.simps [of x i] by simp
      with 1(3) lt False show ?thesis by simp
    next
      case up: True
      define a where "a = look_ahead x i (i + 1)"
      have a_ge: "i + 1 \<le> a" unfolding a_def by (rule look_ahead_ge)
      have a_le: "a \<le> length x - 1" unfolding a_def using lt by (intro look_ahead_le) simp
      show ?thesis
      proof (cases "flt (x ! a) (x ! i)")
        case True
        with lt up 1(4) have "p = (i + (a - 1)) div 2 \<or> p \<in> set (local_maxima x (a + 1))"
          using local_maxima.simps [of x i] by (simp add: a_def Let_def)
        then show ?thesis
        proof
          assume "p = (i + (a - 1)) div 2"
          with a_ge a_le lt show ?thesis by simp
        next
          assume "p \<in> set (local_maxima x (a + 1))"
          with 1(1) [OF lt up a_def True] show ?thesis by simp
        qed
      next
        case False
        with lt up 1(4) have "p \<in> set (local_maxima x (i + 1))"
          using local_maxima.simps [of x i] by (simp add: a_def Let_def)
        with 1(2) [OF lt up a_def False] show ?thesis by simp
      qed
    qed
  qed
qed

lemma find_peaks_bound: "list_all (\<lambda>p. p < length x) (find_peaks x)"
  by (simp add: find_peaks_def list_all_iff local_maxima_bound)

text \<open>The pairing loop in closed form, from any position and with any list built so far.\<close>

lemma pair_loop_from:
  "pair_loop cs i only =
     only @ map (\<lambda>k. keep_of_pair (cs ! (i + 2 * k)) (cs ! (i + 2 * k + 1)))
              [0..<(length cs - i) div 2]"
proof (induction cs i only rule: pair_loop.induct)
  case (1 cs i only)
  show ?case
  proof (cases "i + 1 < length cs")
    case False
    then have "(length cs - i) div 2 = 0" by simp
    moreover from False have "pair_loop cs i only = only"
      using pair_loop.simps [of cs i only] by simp
    ultimately show ?thesis by simp
  next
    case True
    then have n: "(length cs - i) div 2 = Suc ((length cs - (i + 2)) div 2)" by arith
    from True have "pair_loop cs i only =
        pair_loop cs (i + 2) (only @ [keep_of_pair (cs ! i) (cs ! (i + 1))])"
      using pair_loop.simps [of cs i only] by simp
    also have "\<dots> = (only @ [keep_of_pair (cs ! i) (cs ! (i + 1))]) @
        map (\<lambda>k. keep_of_pair (cs ! (i + 2 + 2 * k)) (cs ! (i + 2 + 2 * k + 1)))
          [0..<(length cs - (i + 2)) div 2]"
      using 1 True by simp
    also have "\<dots> = only @ map (\<lambda>k. keep_of_pair (cs ! (i + 2 * k)) (cs ! (i + 2 * k + 1)))
          [0..<Suc ((length cs - (i + 2)) div 2)]"
      by (simp add: map_upt_Suc del: upt_Suc)
    finally show ?thesis by (simp only: n)
  qed
qed

lemma flt_irrefl: "\<not> flt a a"
  by (cases a) simp_all

lemma flt_asym: "flt a b \<Longrightarrow> \<not> flt b a"
  by (cases a; cases b) simp_all

text \<open>
  C1 (as the code has it). The pairing loop of \<open>get_sys_bp\<close> and \<open>get_dias_bp\<close> takes the
  candidates two at a time in their order, pair \<open>k\<close> being the candidates at positions
  \<open>2k\<close> and \<open>2k+1\<close>, and drops a last unpaired candidate. From a pair \<open>(a, b)\<close> it keeps
  \<open>b\<close> when the magnitude of \<open>a\<close> is strictly below that of \<open>b\<close>, and \<open>a\<close> otherwise:
  neither candidate of the pair is strictly larger than the kept one, and on equal
  magnitudes the earlier candidate \<open>a\<close> is kept.
\<close>

theorem pairing_keeps_first_on_tie:
  "pair_loop cs 0 [] =
     map (\<lambda>k. keep_of_pair (cs ! (2 * k)) (cs ! (2 * k + 1))) [0..<length cs div 2]
   \<and> (\<forall>a b. keep_of_pair a b = (if flt (snd a) (snd b) then b else a))
   \<and> (\<forall>a b. \<not> flt (snd (keep_of_pair a b)) (snd a) \<and> \<not> flt (snd (keep_of_pair a b)) (snd b))
   \<and> (\<forall>a b. snd a = snd b \<longrightarrow> keep_of_pair a b = a)"
proof (intro conjI allI impI)
  show "pair_loop cs 0 [] =
     map (\<lambda>k. keep_of_pair (cs ! (2 * k)) (cs ! (2 * k + 1))) [0..<length cs div 2]"
    using pair_loop_from [of cs 0 "[]"] by simp
next
  fix a b :: peak
  show "keep_of_pair a b = (if flt (snd a) (snd b) then b else a)"
    by (simp add: keep_of_pair_def)
  show "\<not> flt (snd (keep_of_pair a b)) (snd a)"
    by (simp add: keep_of_pair_def flt_irrefl flt_asym)
  show "\<not> flt (snd (keep_of_pair a b)) (snd b)"
    by (simp add: keep_of_pair_def flt_irrefl)
  assume "snd a = snd b"
  then show "keep_of_pair a b = a"
    by (simp add: keep_of_pair_def flt_irrefl)
qed

theorem pairing_keeps_first_on_tie_witness:
  "pair_loop [(1, Fin 5), (2, Fin 3), (3, Fin 4), (4, Fin 4), (5, Fin 9)] 0 [] =
     [(1, Fin 5), (3, Fin 4)]
   \<and> snd ((3, Fin 4) :: peak) = snd ((4, Fin 4) :: peak)
   \<and> keep_of_pair (3, Fin 4) (4, Fin 4) = (3, Fin 4)"
  using pairing_keeps_first_on_tie [of "[(1, Fin 5), (2, Fin 3), (3, Fin 4), (4, Fin 4), (5, Fin 9)]"]
  by (simp add: keep_of_pair_def upt_rec)

text \<open>
  C1 as stated fails: on the tied pair of magnitudes \<open>[4, 4]\<close> the first candidate is
  kept, not the second.
\<close>

theorem pairing_tie_counterexample:
  "pair_loop [(1, Fin 4), (3, Fin 4)] 0 [] = [(1, Fin 4)]
   \<and> pair_loop [(1, Fin 4), (3, Fin 4)] 0 [] \<noteq> [(3, Fin 4)]
   \<and> get_sys_bp \<lparr>index = [0, 1, 2, 3, 4], columns = [[Fin 0, Fin 4, Fin 0, Fin 4, Fin 0]]\<rparr> =
       Inr [(1, Fin 4)]"
  by code_simp

lemma take_at_ok: "list_all (\<lambda>p. p < length arr) peaks \<Longrightarrow> take_at arr peaks = Inr (map (\<lambda>p. arr ! p) peaks)"
  by (simp add: take_at_def)

lemma reciprocal_length: "length (reciprocal vals) = length vals"
  by (simp add: reciprocal_def)

lemma peaks_of_ok:
  assumes "length (index df) = length vals" and "list_all (\<lambda>p. p < length vals) peaks"
  shows "peaks_of df vals peaks = Inr (map (\<lambda>p. (index df ! p, vals ! p)) peaks)"
  using assms by (simp add: peaks_of_def take_at_ok zip_map_map zip_same_conv_map)

text \<open>
  C3 (as the code has it). Diastolic extraction checks nothing about the sign of the
  samples. For every series, whatever its values, it returns the pairing of the maxima
  of the element-wise reciprocal and raises nothing; the reciprocal of a zero sample is
  positive infinity and that of any other finite sample, negative ones included, is its
  finite reciprocal.
\<close>

theorem get_dias_bp_takes_reciprocal_unchecked:
  assumes "length idx = length vals"
  shows "get_dias_bp \<lparr>index = idx, columns = vals # others\<rparr> =
           Inr (pair_loop (map (\<lambda>p. (idx ! p, vals ! p)) (find_peaks (reciprocal vals))) 0 [])
         \<and> (\<forall>i<length vals. \<forall>r. vals ! i = Fin r \<longrightarrow>
               reciprocal vals ! i = (if r = 0 then PInf else Fin (1 / r)))"
proof
  have "list_all (\<lambda>p. p < length vals) (find_peaks (reciprocal vals))"
    using find_peaks_bound [of "reciprocal vals"] by (simp add: reciprocal_length)
  with assms show "get_dias_bp \<lparr>index = idx, columns = vals # others\<rparr> =
           Inr (pair_loop (map (\<lambda>p. (idx ! p, vals ! p)) (find_peaks (reciprocal vals))) 0 [])"
    by (simp add: get_dias_bp_def first_channel_def column_def peaks_of_ok)
next
  show "\<forall>i<length vals. \<forall>r. vals ! i = Fin r \<longrightarrow>
               reciprocal vals ! i = (if r = 0 then PInf else Fin (1 / r))"
    by (simp add: reciprocal_def)
qed

theorem get_dias_bp_takes_reciprocal_unchecked_witness:
  "length [0, 1, 2, 3, 4 :: int] = length [Fin 2, Fin 0, Fin 2, Fin (- 1), Fin 2]
   \<and> get_dias_bp \<lparr>index = [0, 1, 2, 3, 4], columns = [[Fin 2, Fin 0, Fin 2, Fin (- 1), Fin 2]]\<rparr> = Inr []
   \<and> reciprocal [Fin 2, Fin 0, Fin 2, Fin (- 1), Fin 2] ! 1 = PInf
   \<and> reciprocal [Fin 2, Fin 0, Fin 2, Fin (- 1), Fin 2] ! 3 = Fin (- 1)"
proof -
  have len: "length [0, 1, 2, 3, 4 :: int] = length [Fin 2, Fin 0, Fin 2, Fin (- 1), Fin 2]"
    by simp
  have run: "pair_loop (map (\<lambda>p. ([0, 1, 2, 3, 4 :: int] ! p, [Fin 2, Fin 0, Fin 2, Fin (- 1), Fin 2] ! p))
               (find_peaks (reciprocal [Fin 2, Fin 0, Fin 2, Fin (- 1), Fin 2]))) 0 [] = []"
    by code_simp
  from get_dias_bp_takes_reciprocal_unchecked [OF len, of "[]"] run show ?thesis
    by simp
qed

text \<open>
  C3 as stated fails: a series with zero samples, and one with negative samples, both
  give a result and no error, the first through reciprocals that are infinite.
\<close>

theorem get_dias_bp_zero_counterexample:
  "get_dias_bp \<lparr>index = [0, 1, 2, 3, 4], columns = [[Fin 2, Fin 0, Fin 2, Fin 0, Fin 2]]\<rparr> =
     Inr [(1, Fin 0)]
   \<and> reciprocal [Fin 2, Fin 0, Fin 2, Fin 0, Fin 2] = [Fin (1 / 2), PInf, Fin (1 / 2), PInf, Fin (1 / 2)]
   \<and> get_dias_bp \<lparr>index = [0, 1, 2, 3, 4], columns = [[Fin (- 1), Fin (- 2), Fin (- 1), Fin (- 2), Fin (- 1)]]\<rparr> =
     Inr [(1, Fin (- 2))]"
  by code_simp

section \<open>Properties of the window aggregation\<close>

lemma get_sys_bp_eval:
  assumes "length idx = length vals"
  shows "get_sys_bp \<lparr>index = idx, columns = vals # others\<rparr> =
           Inr (pair_loop (map (\<lambda>p. (idx ! p, vals ! p)) (find_peaks vals)) 0 [])"
  using assms find_peaks_bound [of vals]
  by (simp add: get_sys_bp_def first_channel_def column_def peaks_of_ok)

lemma get_dias_bp_eval:
  assumes "length idx = length vals"
  shows "get_dias_bp \<lparr>index = idx, columns = vals # others\<rparr> =
           Inr (pair_loop (map (\<lambda>p. (idx ! p, vals ! p)) (find_peaks (reciprocal vals))) 0 [])"
proof -
  have "list_all (\<lambda>p. p < length vals) (find_peaks (reciprocal vals))"
    using find_peaks_bound [of "reciprocal vals"] by (simp add: reciprocal_length)
  with assms show ?thesis
    by (simp add: get_dias_bp_def first_channel_def column_def peaks_of_ok)
qed

lemma shift_back_length: "length (shift_back n col) = length col"
  by (simp add: shift_back_def)

lemma shift_back_nth:
  assumes "i < length col"
  shows "shift_back n col ! i = (if i + n < length col then Fin (of_int (col ! (i + n))) else NaN)"
proof (cases "i + n < length col")
  case True
  then have "i < length (map (\<lambda>c. Fin (of_int c)) (drop n col))" by simp
  then have "shift_back n col ! i = map (\<lambda>c. Fin (of_int c)) (drop n col) ! i"
    unfolding shift_back_def by (simp only: nth_append if_True)
  with True show ?thesis by (simp add: add.commute)
next
  case False
  then have ge: "\<not> i < length (map (\<lambda>c. Fin (of_int c)) (drop n col))" by simp
  have "shift_back n col ! i =
      replicate (min n (length col)) NaN ! (i - length (map (\<lambda>c. Fin (of_int c)) (drop n col)))"
    unfolding shift_back_def using ge by (simp only: nth_append if_False)
  moreover have "i - length (map (\<lambda>c. Fin (of_int c)) (drop n col)) < min n (length col)"
    using assms False by simp arith
  ultimately show ?thesis using False by simp
qed

lemma label_rows_length: "length (label_rows rows) = length rows"
  by (simp add: label_rows_def Let_def shift_back_length)

lemma label_rows_nth:
  assumes "i < length rows"
  shows "label_rows rows ! i =
     \<lparr>wave = wave (rows ! i), start_window = start_window (rows ! i),
      end_window = end_window (rows ! i),
      start_window_time = start_window_time (rows ! i),
      end_window_time = end_window_time (rows ! i),
      avg_sys = avg_sys (rows ! i), avg_dias = avg_dias (rows ! i),
      avg_map = avg_map (rows ! i), all_values = all_values (rows ! i),
      current_hypotensive = (if fle (avg_map (rows ! i)) (Fin 65) then 1 else 0),
      hypotensive_in_15 =
        (if i + 15 < length rows
         then Fin (of_int (if fle (avg_map (rows ! (i + 15))) (Fin 65) then 1 else 0))
         else NaN),
      lookbacks = [], include_in_model = None\<rparr>"
  using assms by (simp add: label_rows_def Let_def shift_back_length shift_back_nth)

lemma channel_frame_sys:
  "\<exists>sys. get_sys_bp (channel_frame d) = Inr sys"
  unfolding channel_frame_def by (subst get_sys_bp_eval) simp_all

lemma channel_frame_dias:
  "\<exists>dias. get_dias_bp (channel_frame d) = Inr dias"
  unfolding channel_frame_def by (subst get_dias_bp_eval) simp_all

lemma loc_ts_Inr: "l \<in> label ` set d \<Longrightarrow> \<exists>t. loc_ts d l = Inr t"
proof -
  assume "l \<in> label ` set d"
  then have "find (\<lambda>s. label s = l) d \<noteq> None" by (auto simp: find_None_iff)
  then show ?thesis by (auto simp: loc_ts_def)
qed

lemma loc_ts_Inl: "l \<notin> label ` set d \<Longrightarrow> loc_ts d l = Inl KeyError"
proof -
  assume "l \<notin> label ` set d"
  then have "find (\<lambda>s. label s = l) d = None" by (auto simp: find_None_iff)
  then show ?thesis by (simp add: loc_ts_def)
qed

lemma loc_ts_only_KeyError: "loc_ts d l = Inl e \<Longrightarrow> e = KeyError"
  by (auto simp: loc_ts_def split: option.splits)

lemma loc_slice_labels:
  "l \<in> label ` set (loc_slice df a b) \<longleftrightarrow> l \<in> label ` set df \<and> a \<le> l \<and> l \<le> b"
  by (auto simp: loc_slice_def)

lemma window_body_total:
  assumes "df \<noteq> []"
  shows "\<exists>ro. window_body df tc w = Inr ro"
proof -
  obtain s0 others where df: "df = s0 # others" using assms by (cases df) auto
  obtain sys where sys: "get_sys_bp (channel_frame (loc_slice df (w - tc) w)) = Inr sys"
    using channel_frame_sys by blast
  obtain dias where dias: "get_dias_bp (channel_frame (loc_slice df (w - tc) w)) = Inr dias"
    using channel_frame_dias by blast
  show ?thesis
    unfolding window_body_def Let_def sys dias
    by (auto simp: df split: sum.splits dest: loc_ts_only_KeyError)
qed

lemma window_body_Some:
  assumes "window_body df tc w = Inr (Some r)"
  shows "start_window r = w - tc \<and> end_window r = w
       \<and> all_values r = map val (loc_slice df (w - tc) w)
       \<and> (\<exists>sys dias. get_sys_bp (channel_frame (loc_slice df (w - tc) w)) = Inr sys
            \<and> get_dias_bp (channel_frame (loc_slice df (w - tc) w)) = Inr dias
            \<and> avg_sys r = np_mean (map snd sys) \<and> avg_dias r = np_mean (map snd dias))
       \<and> avg_map r = fdiv (fadd (avg_sys r) (fmul (Fin 2) (avg_dias r))) (Fin 3)
       \<and> w - tc \<in> label ` set df \<and> w \<in> label ` set df \<and> w - tc \<le> w"
proof -
  obtain sys where sys: "get_sys_bp (channel_frame (loc_slice df (w - tc) w)) = Inr sys"
    using channel_frame_sys by blast
  obtain dias where dias: "get_dias_bp (channel_frame (loc_slice df (w - tc) w)) = Inr dias"
    using channel_frame_dias by blast
  have a: "w - tc \<in> label ` set (loc_slice df (w - tc) w)"
  proof (rule ccontr)
    assume "w - tc \<notin> label ` set (loc_slice df (w - tc) w)"
    then have "loc_ts (loc_slice df (w - tc) w) (w - tc) = Inl KeyError" by (rule loc_ts_Inl)
    with assms show False
      unfolding window_body_def Let_def sys dias by (simp split: list.splits)
  qed
  then obtain t0 where t0: "loc_ts (loc_slice df (w - tc) w) (w - tc) = Inr t0"
    using loc_ts_Inr by blast
  have b: "w \<in> label ` set (loc_slice df (w - tc) w)"
  proof (rule ccontr)
    assume "w \<notin> label ` set (loc_slice df (w - tc) w)"
    then have "loc_ts (loc_slice df (w - tc) w) w = Inl KeyError" by (rule loc_ts_Inl)
    with assms show False
      unfolding window_body_def Let_def sys dias t0 by (simp split: list.splits)
  qed
  then obtain t1 where t1: "loc_ts (loc_slice df (w - tc) w) w = Inr t1"
    using loc_ts_Inr by blast
  from assms have r: "r = \<lparr>wave = wave_id (hd df), start_window = w - tc, end_window = w,
      start_window_time = t0, end_window_time = t1,
      avg_sys = np_mean (map snd sys), avg_dias = np_mean (map snd dias),
      avg_map = fdiv (fadd (np_mean (map snd sys)) (fmul (Fin 2) (np_mean (map snd dias)))) (Fin 3),
      all_values = map val (loc_slice df (w - tc) w)\<rparr>"
    unfolding window_body_def Let_def sys dias t0 t1 by (auto split: list.splits)
  from a b have "w - tc \<in> label ` set df \<and> w \<in> label ` set df \<and> w - tc \<le> w"
    by (simp add: loc_slice_labels)
  with sys dias show ?thesis by (simp add: r)
qed

lemma window_body_present:
  assumes "df \<noteq> []" and "w - tc \<in> label ` set df" and "w \<in> label ` set df" and "0 \<le> tc"
  shows "\<exists>r. window_body df tc w = Inr (Some r)"
proof -
  obtain s0 others where df: "df = s0 # others" using assms(1) by (cases df) auto
  obtain sys where sys: "get_sys_bp (channel_frame (loc_slice df (w - tc) w)) = Inr sys"
    using channel_frame_sys by blast
  obtain dias where dias: "get_dias_bp (channel_frame (loc_slice df (w - tc) w)) = Inr dias"
    using channel_frame_dias by blast
  from assms have "w - tc \<in> label ` set (loc_slice df (w - tc) w)"
    by (simp add: loc_slice_labels)
  then obtain t0 where t0: "loc_ts (loc_slice df (w - tc) w) (w - tc) = Inr t0"
    using loc_ts_Inr by blast
  from assms have "w \<in> label ` set (loc_slice df (w - tc) w)"
    by (simp add: loc_slice_labels)
  then obtain t1 where t1: "loc_ts (loc_slice df (w - tc) w) w = Inr t1"
    using loc_ts_Inr by blast
  show ?thesis
    unfolding window_body_def Let_def sys dias t0 t1 by (simp add: df)
qed



lemma window_loop_eval:
  assumes "df \<noteq> []"
  shows "window_loop df tc ws acc = Inr (acc @ concat (map (emitted df tc) ws))"
proof (induction ws arbitrary: acc)
  case Nil
  show ?case by simp
next
  case (Cons w ws)
  obtain ro where ro: "window_body df tc w = Inr ro"
    using window_body_total [OF assms] by blast
  show ?case
    by (cases ro) (simp_all add: ro Cons.IH emitted_def)
qed

lemma avg_bp_Some:
  assumes "avg_bp df tc tw = Inr (Some tbl)"
  shows "df \<noteq> [] \<and> (\<exists>ws. py_range (label (hd df) + tc * 1000 div 8) (label (last df)) (tw * 1000 div 8) = Inr ws
           \<and> tbl = label_rows (concat (map (emitted df (tc * 1000 div 8)) ws))
           \<and> concat (map (emitted df (tc * 1000 div 8)) ws) \<noteq> [])"
proof -
  from assms obtain s0 others where df: "df = s0 # others"
    by (cases df) (auto simp: avg_bp_def)
  then have ne: "df \<noteq> []" by simp
  from assms obtain ws where
    ws: "py_range (label (hd df) + tc * 1000 div 8) (label (last df)) (tw * 1000 div 8) = Inr ws"
    unfolding avg_bp_def Let_def df by (auto split: sum.splits)
  from assms show ?thesis
    using ws unfolding avg_bp_def Let_def
    by (auto simp: df window_loop_eval [OF ne, unfolded df] split: if_splits)
qed

lemma fle_Fin [simp]: "fle (Fin a) (Fin b) = (a \<le> b)"
  by (auto simp: fle_def)

lemma fle_NaN [simp]: "fle NaN b = False"
  by (simp add: fle_def)

lemma fge_Fin [simp]: "fge (Fin a) (Fin b) = (b \<le> a)"
  by (simp add: fge_def)

lemma fge_NaN [simp]: "fge NaN b = False"
  by (cases b) (simp_all add: fge_def fle_def)

lemma avg_bp_rows:
  assumes "avg_bp df tc tw = Inr (Some tbl)"
  shows "\<exists>rows. tbl = label_rows rows \<and> rows \<noteq> []
           \<and> (\<forall>r\<in>set rows. \<exists>ws w.
                 py_range (label (hd df) + tc * 1000 div 8) (label (last df)) (tw * 1000 div 8) = Inr ws
               \<and> w \<in> set ws \<and> window_body df (tc * 1000 div 8) w = Inr (Some r))"
proof -
  from avg_bp_Some [OF assms] obtain ws where
    ws: "py_range (label (hd df) + tc * 1000 div 8) (label (last df)) (tw * 1000 div 8) = Inr ws"
    and tbl: "tbl = label_rows (concat (map (emitted df (tc * 1000 div 8)) ws))"
    and ne: "concat (map (emitted df (tc * 1000 div 8)) ws) \<noteq> []"
    by blast
  have "\<exists>ws' w. py_range (label (hd df) + tc * 1000 div 8) (label (last df)) (tw * 1000 div 8) = Inr ws'
             \<and> w \<in> set ws' \<and> window_body df (tc * 1000 div 8) w = Inr (Some r)"
    if "r \<in> set (concat (map (emitted df (tc * 1000 div 8)) ws))" for r
  proof -
    from that obtain w where w: "w \<in> set ws" and r: "r \<in> set (emitted df (tc * 1000 div 8) w)"
      by auto
    from r have "window_body df (tc * 1000 div 8) w = Inr (Some r)"
      by (auto simp: emitted_def split: sum.splits option.splits)
    with ws w show ?thesis by blast
  qed
  with tbl ne show ?thesis by blast
qed

lemma py_range_pos_mem:
  assumes "py_range a b s = Inr ws" and "0 < s" and "w \<in> set ws"
  shows "a \<le> w \<and> w < b \<and> (w - a) mod s = 0"
proof -
  define y where "y = b - a + s - 1"
  from assms(1,2) have "ws = map (\<lambda>k. a + int k * s) [0..<nat (y div s)]"
    by (simp add: py_range_def y_def)
  with assms(3) obtain k where k: "k < nat (y div s)" and w: "w = a + int k * s" by auto
  from k have "int k + 1 \<le> y div s" by simp
  with assms(2) have "(int k + 1) * s \<le> (y div s) * s" by (simp add: mult_right_mono)
  also have "(y div s) * s = y - y mod s" by (simp add: minus_mod_eq_div_mult)
  also have "\<dots> \<le> y" using assms(2) by simp
  finally have "int k * s < b - a" by (simp add: y_def algebra_simps)
  moreover have "0 \<le> int k * s" using assms(2) by simp
  ultimately show ?thesis by (simp add: w)
qed

lemma samples_exact: "(of_int (t * 1000 div 8) :: rat) = of_int t * 1000 / 8"
  by simp

lemma samples_pos: "0 < t * 1000 div 8 \<longleftrightarrow> 0 < (t::int)"
  by simp

text \<open>The example waveform aggregates to the example table.\<close>

lemma example_run: "avg_bp example_wave 1 1 = Inr (Some example_table)"
  by code_simp

text \<open>
  C4. In every table \<open>avg_bp\<close> returns, \<open>hypotensive_in_15\<close> of row \<open>i\<close> is
  \<open>current_hypotensive\<close> of row \<open>i + 15\<close> whenever that row exists, and is missing (NaN) in
  the last 15 rows.
\<close>

theorem hypotensive_in_15_is_shift:
  assumes "avg_bp df time_chunk time_window = Inr (Some tbl)"
  shows "\<forall>i<length tbl.
           hypotensive_in_15 (tbl ! i) =
             (if i + 15 < length tbl then Fin (of_int (current_hypotensive (tbl ! (i + 15))))
              else NaN)"
proof (intro allI impI)
  fix i assume i: "i < length tbl"
  from avg_bp_rows [OF assms] obtain rows where tbl: "tbl = label_rows rows" by blast
  from i have len: "i < length rows" by (simp add: tbl label_rows_length)
  show "hypotensive_in_15 (tbl ! i) =
          (if i + 15 < length tbl then Fin (of_int (current_hypotensive (tbl ! (i + 15)))) else NaN)"
  proof (cases "i + 15 < length rows")
    case True
    with len show ?thesis by (simp add: tbl label_rows_length label_rows_nth)
  next
    case False
    with len show ?thesis by (simp add: tbl label_rows_length label_rows_nth)
  qed
qed

theorem hypotensive_in_15_is_shift_witness:
  "avg_bp example_wave 1 1 = Inr (Some example_table)
   \<and> length example_table = 17
   \<and> hypotensive_in_15 (example_table ! 0) = Fin (of_int (current_hypotensive (example_table ! 15)))
   \<and> current_hypotensive (example_table ! 15) = 1
   \<and> hypotensive_in_15 (example_table ! 1) = Fin (of_int (current_hypotensive (example_table ! 16)))
   \<and> hypotensive_in_15 (example_table ! 2) = NaN
   \<and> hypotensive_in_15 (example_table ! 16) = NaN"
proof -
  have len: "length example_table = 17" by (simp add: example_table_def)
  have c15: "current_hypotensive (example_table ! 15) = 1" by (simp add: example_table_def)
  note shift = hypotensive_in_15_is_shift [OF example_run, rule_format]
  from shift [of 0] shift [of 1] shift [of 2] shift [of 16] len c15 example_run
  show ?thesis by simp
qed



text \<open>
  C8. The cleaner keeps every row and sets \<open>include_in_model\<close> to 1 exactly when
  \<open>avg_sys \<ge> 30\<close>, \<open>avg_dias \<ge> 10\<close> and \<open>hypotensive_in_15\<close> is not missing, and to 0 otherwise
  (on finite values \<open>fge\<close> is the order of the numbers, and NaN is above nothing); a row
  with \<open>avg_sys = 29.9\<close> gets 0 whatever its other fields, and a row with \<open>avg_sys = 30\<close>,
  \<open>avg_dias = 10\<close> and \<open>hypotensive_in_15 = 1\<close> gets 1.
\<close>

theorem clean_bp_summary_flag:
  "length (clean_bp_summary df) = length df
   \<and> (\<forall>i<length df.
         clean_bp_summary df ! i =
           (df ! i)\<lparr>include_in_model :=
              Some (if fge (avg_sys (df ! i)) (Fin 30) \<and> fge (avg_dias (df ! i)) (Fin 10)
                       \<and> hypotensive_in_15 (df ! i) \<noteq> NaN then 1 else 0)\<rparr>)
   \<and> (\<forall>a b. fge (Fin a) (Fin b) = (b \<le> a)) \<and> (\<forall>b. \<not> fge NaN b)
   \<and> (\<forall>i<length df. avg_sys (df ! i) = Fin (299 / 10) \<longrightarrow>
         include_in_model (clean_bp_summary df ! i) = Some 0)
   \<and> (\<forall>i<length df. avg_sys (df ! i) = Fin 30 \<and> avg_dias (df ! i) = Fin 10
           \<and> hypotensive_in_15 (df ! i) = Fin 1 \<longrightarrow>
         include_in_model (clean_bp_summary df ! i) = Some 1)"
  by (simp add: clean_bp_summary_def isnan_def)

theorem clean_bp_summary_flag_witness:
  "map include_in_model (clean_bp_summary cleaner_rows) = [Some 0, Some 1, Some 0]
   \<and> (0 :: nat) < length cleaner_rows \<and> avg_sys (cleaner_rows ! 0) = Fin (299 / 10)
   \<and> include_in_model (clean_bp_summary cleaner_rows ! 0) = Some 0
   \<and> 1 < length cleaner_rows
   \<and> avg_sys (cleaner_rows ! 1) = Fin 30 \<and> avg_dias (cleaner_rows ! 1) = Fin 10
   \<and> hypotensive_in_15 (cleaner_rows ! 1) = Fin 1
   \<and> include_in_model (clean_bp_summary cleaner_rows ! 1) = Some 1"
proof -
  have len: "length cleaner_rows = 3" by (simp add: cleaner_rows_def)
  have r0: "avg_sys (cleaner_rows ! 0) = Fin (299 / 10)"
    by (simp add: cleaner_rows_def summary_of_def)
  have r1: "avg_sys (cleaner_rows ! 1) = Fin 30" "avg_dias (cleaner_rows ! 1) = Fin 10"
    "hypotensive_in_15 (cleaner_rows ! 1) = Fin 1"
    by (simp_all add: cleaner_rows_def summary_of_def)
  have run: "map include_in_model (clean_bp_summary cleaner_rows) = [Some 0, Some 1, Some 0]"
    by code_simp
  note t = clean_bp_summary_flag [of cleaner_rows]
  from t have a: "include_in_model (clean_bp_summary cleaner_rows ! 0) = Some 0"
    using len r0 by simp
  from t have b: "include_in_model (clean_bp_summary cleaner_rows ! 1) = Some 1"
    using len r1 by simp
  from a b run len r0 r1 show ?thesis by simp
qed

text \<open>The window positions for a positive step, and the rows the loop appends for them.\<close>

lemma py_range_pos_set:
  assumes "py_range a b s = Inr ws" and "0 < s"
  shows "set ws = {w. a \<le> w \<and> w < b \<and> (w - a) mod s = 0}"
proof (intro set_eqI iffI)
  fix w assume "w \<in> set ws"
  from py_range_pos_mem [OF assms this] show "w \<in> {w. a \<le> w \<and> w < b \<and> (w - a) mod s = 0}"
    by simp
next
  fix w assume "w \<in> {w. a \<le> w \<and> w < b \<and> (w - a) mod s = 0}"
  then have w: "a \<le> w" "w < b" "(w - a) mod s = 0" by simp_all
  define y where "y = b - a + s - 1"
  define q where "q = (w - a) div s"
  from w(3) have qs: "w - a = q * s" unfolding q_def by auto
  from w(1) assms(2) have q0: "0 \<le> q" unfolding q_def by (simp add: pos_imp_zdiv_nonneg_iff)
  from qs w(2) have "(q + 1) * s \<le> y" unfolding y_def by (simp add: algebra_simps)
  then have "(q + 1) * s div s \<le> y div s" by (rule zdiv_mono1) (rule assms(2))
  with assms(2) have "q + 1 \<le> y div s" by simp
  with q0 have k: "nat q < nat (y div s)" by simp
  from assms have ws: "ws = map (\<lambda>k. a + int k * s) [0..<nat (y div s)]"
    by (simp add: py_range_def y_def)
  have "w = a + int (nat q) * s" using qs q0 by simp
  with k show "w \<in> set ws" unfolding ws by (auto intro!: image_eqI [where x = "nat q"])
qed

lemma py_range_steps:
  assumes "py_range a b s = Inr ws"
  shows "ws = map (\<lambda>k. a + int k * s) [0..<length ws]"
  using assms by (auto simp: py_range_def split: if_splits)

lemma py_range_total: "s \<noteq> 0 \<Longrightarrow> \<exists>ws. py_range a b s = Inr ws"
  by (simp add: py_range_def)

lemma emitted_end_window:
  assumes "df \<noteq> []"
  shows "map end_window (emitted df tc w) =
           (if w - tc \<in> label ` set df \<and> w \<in> label ` set df \<and> 0 \<le> tc then [w] else [])"
proof (cases "w - tc \<in> label ` set df \<and> w \<in> label ` set df \<and> 0 \<le> tc")
  case True
  with window_body_present [OF assms, of w tc] obtain r where
    r: "window_body df tc w = Inr (Some r)" by blast
  from window_body_Some [OF r] have "end_window r = w" by simp
  with True r show ?thesis by (simp add: emitted_def)
next
  case False
  obtain ro where ro: "window_body df tc w = Inr ro"
    using window_body_total [OF assms] by blast
  have "ro = None"
  proof (cases ro)
    case None
    then show ?thesis .
  next
    case (Some r)
    with ro have "window_body df tc w = Inr (Some r)" by simp
    from window_body_Some [OF this] False show ?thesis by simp
  qed
  with ro False show ?thesis by (simp add: emitted_def)
qed

lemma emitted_ends:
  assumes "df \<noteq> []"
  shows "map end_window (concat (map (emitted df tc) ws)) =
           filter (\<lambda>w. w - tc \<in> label ` set df \<and> w \<in> label ` set df \<and> 0 \<le> tc) ws"
  by (induction ws) (simp_all add: emitted_end_window [OF assms])

lemma label_rows_end_window: "map end_window (label_rows rows) = map end_window rows"
  by (rule nth_equalityI) (simp_all add: label_rows_length label_rows_nth)

lemma avg_bp_eval:
  assumes ne: "df \<noteq> []"
    and ws: "py_range (label (hd df) + tc * 1000 div 8) (label (last df)) (tw * 1000 div 8) = Inr ws"
  shows "avg_bp df tc tw =
           Inr (if concat (map (emitted df (tc * 1000 div 8)) ws) = [] then None
                else Some (label_rows (concat (map (emitted df (tc * 1000 div 8)) ws))))"
proof -
  obtain s0 others where df: "df = s0 # others" using ne by (cases df) auto
  show ?thesis
    using ws unfolding avg_bp_def Let_def
    by (simp add: df window_loop_eval [OF ne, unfolded df])
qed

lemma emitted_row:
  assumes "r \<in> set (concat (map (emitted df tc) ws))"
  shows "\<exists>w\<in>set ws. window_body df tc w = Inr (Some r)"
proof -
  from assms obtain w where w: "w \<in> set ws" and r: "r \<in> set (emitted df tc w)" by auto
  from r have "window_body df tc w = Inr (Some r)"
    by (auto simp: emitted_def split: sum.splits option.splits)
  with w show ?thesis by blast
qed

text \<open>
  C6 (as the code has it). In every aggregation run on a non-empty frame with a non-zero
  step, the chunk and the step are \<open>seconds * 1000 / 8\<close> samples; the window end positions
  are \<open>range(first_index + chunk, last_index, step)\<close>, which for a positive step are the
  positions from \<open>first_index + chunk\<close> up to \<open>last_index\<close> (exclusive) a whole number of
  steps from the first. The run returns one row, in order, for every window position
  whose two boundary samples \<open>w - chunk\<close> and \<open>w\<close> exist, and none for any other (no table
  when there is no row). Every row holds the samples with labels in
  \<open>[start_window, end_window]\<close>, and \<open>end_window - start_window\<close> is the chunk in samples. So
  \<open>start_window \<le> end_window\<close>, and \<open>start_window < end_window\<close> when the chunk duration is
  positive.
\<close>

theorem window_rows_span_the_chunk:
  assumes ne: "df \<noteq> []" and step: "time_window \<noteq> 0"
  shows "(of_int (time_chunk * 1000 div 8) :: rat) = of_int time_chunk * 1000 / 8
       \<and> (of_int (time_window * 1000 div 8) :: rat) = of_int time_window * 1000 / 8
       \<and> (\<exists>windows res.
             py_range (label (hd df) + time_chunk * 1000 div 8) (label (last df))
               (time_window * 1000 div 8) = Inr windows
           \<and> windows = map (\<lambda>k. label (hd df) + time_chunk * 1000 div 8
                                    + int k * (time_window * 1000 div 8)) [0..<length windows]
           \<and> (0 < time_window \<longrightarrow>
                set windows = {w. label (hd df) + time_chunk * 1000 div 8 \<le> w
                                \<and> w < label (last df)
                                \<and> (w - (label (hd df) + time_chunk * 1000 div 8))
                                     mod (time_window * 1000 div 8) = 0})
           \<and> avg_bp df time_chunk time_window = Inr res \<and> res \<noteq> Some []
           \<and> map end_window (case res of None \<Rightarrow> [] | Some tbl \<Rightarrow> tbl) =
               filter (\<lambda>w. w - time_chunk * 1000 div 8 \<in> label ` set df \<and> w \<in> label ` set df
                            \<and> 0 \<le> time_chunk) windows
           \<and> (\<forall>r\<in>set (case res of None \<Rightarrow> [] | Some tbl \<Rightarrow> tbl).
                 all_values r =
                   map val (filter (\<lambda>s. start_window r \<le> label s \<and> label s \<le> end_window r) df)
               \<and> end_window r - start_window r = time_chunk * 1000 div 8
               \<and> start_window r \<le> end_window r
               \<and> (0 < time_chunk \<longrightarrow> start_window r < end_window r)))"
proof -
  define tc where "tc = time_chunk * 1000 div 8"
  define tw where "tw = time_window * 1000 div 8"
  define a where "a = label (hd df) + tc"
  define b where "b = label (last df)"
  from step have tw0: "tw \<noteq> 0" by (simp add: tw_def)
  then obtain ws where ws: "py_range a b tw = Inr ws" using py_range_total by blast
  define rows where "rows = concat (map (emitted df tc) ws)"
  define res where "res = (if rows = [] then None else Some (label_rows rows))"
  have run: "avg_bp df time_chunk time_window = Inr res"
    unfolding res_def rows_def tc_def
    by (rule avg_bp_eval [OF ne ws [unfolded a_def b_def tc_def tw_def]])
  have tbl: "(case res of None \<Rightarrow> [] | Some tbl \<Rightarrow> tbl) = label_rows rows"
    by (simp add: res_def label_rows_def)
  have c1: "(of_int (time_chunk * 1000 div 8) :: rat) = of_int time_chunk * 1000 / 8"
    by (rule samples_exact)
  have c2: "(of_int (time_window * 1000 div 8) :: rat) = of_int time_window * 1000 / 8"
    by (rule samples_exact)
  have w1: "ws = map (\<lambda>k. a + int k * tw) [0..<length ws]" by (rule py_range_steps [OF ws])
  have w2: "0 < time_window \<longrightarrow> set ws = {w. a \<le> w \<and> w < b \<and> (w - a) mod tw = 0}"
  proof
    assume "0 < time_window"
    then have "0 < tw" by (simp add: tw_def)
    from py_range_pos_set [OF ws this] show "set ws = {w. a \<le> w \<and> w < b \<and> (w - a) mod tw = 0}" .
  qed
  have w3: "res \<noteq> Some []"
    by (simp add: res_def label_rows_length [symmetric] del: length_0_conv)
      (metis label_rows_length length_0_conv)
  have tc0: "0 \<le> tc \<longleftrightarrow> 0 \<le> time_chunk" by (simp add: tc_def)
  have w4: "map end_window (case res of None \<Rightarrow> [] | Some tbl \<Rightarrow> tbl) =
               filter (\<lambda>w. w - tc \<in> label ` set df \<and> w \<in> label ` set df \<and> 0 \<le> time_chunk) ws"
    unfolding tbl label_rows_end_window rows_def emitted_ends [OF ne] tc0 ..
  have w5: "\<forall>r\<in>set (case res of None \<Rightarrow> [] | Some tbl \<Rightarrow> tbl).
                 all_values r =
                   map val (filter (\<lambda>s. start_window r \<le> label s \<and> label s \<le> end_window r) df)
               \<and> end_window r - start_window r = tc
               \<and> start_window r \<le> end_window r
               \<and> (0 < time_chunk \<longrightarrow> start_window r < end_window r)"
  proof
    fix r assume "r \<in> set (case res of None \<Rightarrow> [] | Some tbl \<Rightarrow> tbl)"
    then obtain i where i: "i < length rows" and r: "r = label_rows rows ! i"
      unfolding tbl by (auto simp: in_set_conv_nth label_rows_length)
    from i have "rows ! i \<in> set rows" by simp
    then have "\<exists>w\<in>set ws. window_body df tc w = Inr (Some (rows ! i))"
      unfolding rows_def by (rule emitted_row)
    then obtain w where w: "window_body df tc w = Inr (Some (rows ! i))" by blast
    note facts = window_body_Some [OF w]
    from i have fields: "start_window r = start_window (rows ! i)"
      "end_window r = end_window (rows ! i)" "all_values r = all_values (rows ! i)"
      by (simp_all add: r label_rows_nth)
    from facts have se: "start_window r = w - tc" "end_window r = w"
      and av: "all_values r = map val (loc_slice df (w - tc) w)"
      and le: "w - tc \<le> w"
      unfolding fields by simp_all
    have "0 < time_chunk \<longrightarrow> 0 < tc" by (simp add: tc_def)
    with se av le show "all_values r =
                   map val (filter (\<lambda>s. start_window r \<le> label s \<and> label s \<le> end_window r) df)
               \<and> end_window r - start_window r = tc
               \<and> start_window r \<le> end_window r
               \<and> (0 < time_chunk \<longrightarrow> start_window r < end_window r)"
      by (simp add: loc_slice_def)
  qed
  from ws w1 w2 run w3 w4 w5 have "\<exists>windows res.
             py_range a b tw = Inr windows
           \<and> windows = map (\<lambda>k. a + int k * tw) [0..<length windows]
           \<and> (0 < time_window \<longrightarrow> set windows = {w. a \<le> w \<and> w < b \<and> (w - a) mod tw = 0})
           \<and> avg_bp df time_chunk time_window = Inr res \<and> res \<noteq> Some []
           \<and> map end_window (case res of None \<Rightarrow> [] | Some tbl \<Rightarrow> tbl) =
               filter (\<lambda>w. w - tc \<in> label ` set df \<and> w \<in> label ` set df \<and> 0 \<le> time_chunk) windows
           \<and> (\<forall>r\<in>set (case res of None \<Rightarrow> [] | Some tbl \<Rightarrow> tbl).
                 all_values r =
                   map val (filter (\<lambda>s. start_window r \<le> label s \<and> label s \<le> end_window r) df)
               \<and> end_window r - start_window r = tc
               \<and> start_window r \<le> end_window r
               \<and> (0 < time_chunk \<longrightarrow> start_window r < end_window r))"
    by blast
  with c1 c2 show ?thesis unfolding a_def b_def tc_def tw_def by blast
qed

theorem window_rows_span_the_chunk_witness:
  "example_wave \<noteq> [] \<and> (1 :: int) \<noteq> 0
   \<and> py_range (label (hd example_wave) + 1 * 1000 div 8) (label (last example_wave))
        (1 * 1000 div 8) = Inr (map (\<lambda>k. 125 + int k * 125) [0..<17])
   \<and> avg_bp example_wave 1 1 = Inr (Some example_table)
   \<and> map end_window example_table =
       filter (\<lambda>w. w - 1 * 1000 div 8 \<in> label ` set example_wave \<and> w \<in> label ` set example_wave
                    \<and> (0 :: int) \<le> 1) (map (\<lambda>k. 125 + int k * 125) [0..<17])
   \<and> map end_window example_table = map (\<lambda>k. 125 + int k * 125) [0..<17]
   \<and> end_window (example_table ! 15) - start_window (example_table ! 15) = 1 * 1000 div 8
   \<and> start_window (example_table ! 15) < end_window (example_table ! 15)"
proof -
  have ne: "example_wave \<noteq> []" by (simp add: example_wave_def upt_rec)
  have step: "(1 :: int) \<noteq> 0" by simp
  have rng: "py_range (label (hd example_wave) + 1 * 1000 div 8) (label (last example_wave))
        (1 * 1000 div 8) = Inr (map (\<lambda>k. 125 + int k * 125) [0..<17])"
    by code_simp
  have ends: "map end_window example_table = map (\<lambda>k. 125 + int k * 125) [0..<17]"
    by (simp add: example_table_def add.commute)
  have mem: "example_table ! 15 \<in> set example_table"
    by (rule nth_mem) (simp add: example_table_def)
  from window_rows_span_the_chunk [OF ne step, of 1] obtain windows res where
    w: "py_range (label (hd example_wave) + 1 * 1000 div 8) (label (last example_wave))
          (1 * 1000 div 8) = Inr windows"
    and run: "avg_bp example_wave 1 1 = Inr res"
    and filt: "map end_window (case res of None \<Rightarrow> [] | Some tbl \<Rightarrow> tbl) =
               filter (\<lambda>w. w - 1 * 1000 div 8 \<in> label ` set example_wave
                            \<and> w \<in> label ` set example_wave \<and> (0 :: int) \<le> 1) windows"
    and rows: "\<forall>r\<in>set (case res of None \<Rightarrow> [] | Some tbl \<Rightarrow> tbl).
                 all_values r =
                   map val (filter (\<lambda>s. start_window r \<le> label s \<and> label s \<le> end_window r)
                     example_wave)
               \<and> end_window r - start_window r = 1 * 1000 div 8
               \<and> start_window r \<le> end_window r
               \<and> ((0 :: int) < 1 \<longrightarrow> start_window r < end_window r)"
    by blast
  from w rng have windows: "windows = map (\<lambda>k. 125 + int k * 125) [0..<17]" by simp
  from run example_run have res: "res = Some example_table" by simp
  from rows mem have r15: "end_window (example_table ! 15) - start_window (example_table ! 15)
        = 1 * 1000 div 8"
    "start_window (example_table ! 15) < end_window (example_table ! 15)"
    unfolding res by auto
  from filt have f: "map end_window example_table =
       filter (\<lambda>w. w - 1 * 1000 div 8 \<in> label ` set example_wave \<and> w \<in> label ` set example_wave
                    \<and> (0 :: int) \<le> 1) (map (\<lambda>k. 125 + int k * 125) [0..<17])"
    unfolding res windows by simp
  show ?thesis by (intro conjI; fact)
qed

text \<open>
  C6 as stated fails for a chunk duration of zero seconds: a row is emitted whose
  \<open>start_window\<close> equals its \<open>end_window\<close>.
\<close>

theorem zero_chunk_counterexample:
  "avg_bp flat_wave 0 1 =
     Inr (Some [\<lparr>wave = ''a40001'', start_window = 0, end_window = 0,
                 start_window_time = 0, end_window_time = 0,
                 avg_sys = NaN, avg_dias = NaN, avg_map = NaN, all_values = [Fin 70],
                 current_hypotensive = 0, hypotensive_in_15 = NaN,
                 lookbacks = [], include_in_model = None\<rparr>])"
  by code_simp

section \<open>Properties of the MAP calculation\<close>

lemma map2_map_map: "map2 f (map g xs) (map h ys) = map2 (\<lambda>x y. f (g x) (h y)) xs ys"
  by (simp add: zip_map_map split_beta)

text \<open>
  C5. For systolic and diastolic peak sequences of equal length \<open>calc_map\<close> returns the
  positions \<open>(sidx + didx) / 2\<close> and the values \<open>(sbp + 2 * dbp) / 3\<close>, element by element;
  for sequences of different lengths it raises the shape error, a ValueError.
\<close>

theorem calc_map_elementwise:
  "(length sys = length dias \<longrightarrow>
      calc_map sys dias =
        Inr (map2 (\<lambda>s d. Fin ((of_int (fst s) + of_int (fst d)) / 2)) sys dias,
             map2 (\<lambda>s d. fdiv (fadd (snd s) (fmul (Fin 2) (snd d))) (Fin 3)) sys dias))
   \<and> (length sys \<noteq> length dias \<longrightarrow> calc_map sys dias = Inl ValueError)"
proof (intro conjI impI)
  assume len: "length sys = length dias"
  then show "calc_map sys dias =
        Inr (map2 (\<lambda>s d. Fin ((of_int (fst s) + of_int (fst d)) / 2)) sys dias,
             map2 (\<lambda>s d. fdiv (fadd (snd s) (fmul (Fin 2) (snd d))) (Fin 3)) sys dias)"
    by (simp add: calc_map_def broadcast2_def mean_axis0_def zip_map_map zip_map1 zip_map2 split_beta o_def)
next
  assume "length sys \<noteq> length dias"
  then show "calc_map sys dias = Inl ValueError"
    by (simp add: calc_map_def broadcast2_def mean_axis0_def Let_def)
qed

theorem calc_map_elementwise_witness:
  "length [(10, Fin 120), (30, Fin 120 :: pyfloat)] = length [(20 :: int, Fin 80), (50, Fin 80)]
   \<and> calc_map [(10, Fin 120), (30, Fin 120)] [(20, Fin 80), (50, Fin 80)] =
       Inr ([Fin 15, Fin 40], [Fin (280 / 3), Fin (280 / 3)])
   \<and> length [(10 :: int, Fin 120), (30, Fin 120)] \<noteq> length [(20 :: int, Fin 80)]
   \<and> calc_map [(10, Fin 120), (30, Fin 120)] [(20, Fin 80)] = Inl ValueError"
  using calc_map_elementwise [of "[(10, Fin 120), (30, Fin 120)]" "[(20, Fin 80), (50, Fin 80)]"]
    calc_map_elementwise [of "[(10, Fin 120), (30, Fin 120)]" "[(20, Fin 80)]"]
  by simp

section \<open>Windows with too few peak candidates\<close>

lemma pair_loop_few: "length cs < 2 \<Longrightarrow> pair_loop cs 0 [] = []"
  using pair_loop_from [of cs 0 "[]"] by simp

lemma np_mean_empty: "np_mean [] = NaN"
  by (simp add: np_mean_def)

lemma fadd_NaN_right: "fadd a NaN = NaN"
  by (cases a) simp_all

lemma fmul_NaN_right: "fmul a NaN = NaN"
  by (cases a) simp_all

lemma channel_sys_few:
  assumes "get_sys_bp (channel_frame d) = Inr sys" and "length (find_peaks (map val d)) < 2"
  shows "sys = []"
proof -
  have "get_sys_bp (channel_frame d) =
      Inr (pair_loop (map (\<lambda>p. (map label d ! p, map val d ! p)) (find_peaks (map val d))) 0 [])"
    unfolding channel_frame_def by (rule get_sys_bp_eval) simp
  with assms show ?thesis by (simp add: pair_loop_few)
qed

lemma channel_dias_few:
  assumes "get_dias_bp (channel_frame d) = Inr dias"
    and "length (find_peaks (reciprocal (map val d))) < 2"
  shows "dias = []"
proof -
  have "get_dias_bp (channel_frame d) =
      Inr (pair_loop (map (\<lambda>p. (map label d ! p, map val d ! p))
             (find_peaks (reciprocal (map val d)))) 0 [])"
    unfolding channel_frame_def by (rule get_dias_bp_eval) simp
  with assms show ?thesis by (simp add: pair_loop_few)
qed

text \<open>The one window of the uneven waveform.\<close>

lemma uneven_run:
  "avg_bp uneven_wave 1 1 =
     Inr (Some [\<lparr>wave = ''a40001'', start_window = 0, end_window = 125,
                 start_window_time = 0, end_window_time = 1000000000,
                 avg_sys = NaN, avg_dias = Fin 1, avg_map = NaN,
                 all_values = [Fin 5, Fin 1, Fin 5, Fin 1, Fin 5, Fin 5],
                 current_hypotensive = 0, hypotensive_in_15 = NaN,
                 lookbacks = [], include_in_model = None\<rparr>])"
  by code_simp

text \<open>
  C10 (as the code has it). A window of the loop whose two boundary samples exist, and
  whose sub-series has fewer than two systolic or fewer than two diastolic peak
  candidates, still gives a row of the returned table: its \<open>avg_map\<close> is NaN and its
  \<open>current_hypotensive\<close> is 0; \<open>avg_sys\<close> is NaN when the systolic candidates are fewer
  than two, and \<open>avg_dias\<close> is NaN when the diastolic candidates are fewer than two.
\<close>

theorem few_candidates_give_nan_row:
  assumes ne: "df \<noteq> []"
    and windows: "py_range (label (hd df) + time_chunk * 1000 div 8) (label (last df))
                    (time_window * 1000 div 8) = Inr windows"
    and w: "w \<in> set windows"
    and present: "w - time_chunk * 1000 div 8 \<in> label ` set df" "w \<in> label ` set df"
      "0 \<le> time_chunk"
    and few: "length (find_peaks (map val (loc_slice df (w - time_chunk * 1000 div 8) w))) < 2
            \<or> length (find_peaks (reciprocal (map val (loc_slice df (w - time_chunk * 1000 div 8) w)))) < 2"
  shows "\<exists>tbl. avg_bp df time_chunk time_window = Inr (Some tbl)
         \<and> (\<exists>r\<in>set tbl. start_window r = w - time_chunk * 1000 div 8 \<and> end_window r = w
               \<and> avg_map r = NaN \<and> current_hypotensive r = 0
               \<and> (length (find_peaks (map val (loc_slice df (w - time_chunk * 1000 div 8) w))) < 2
                    \<longrightarrow> avg_sys r = NaN)
               \<and> (length (find_peaks (reciprocal (map val (loc_slice df (w - time_chunk * 1000 div 8) w)))) < 2
                    \<longrightarrow> avg_dias r = NaN))"
proof -
  define tc where "tc = time_chunk * 1000 div 8"
  define d where "d = loc_slice df (w - tc) w"
  define rows where "rows = concat (map (emitted df tc) windows)"
  have tc0: "0 \<le> tc" using present(3) by (simp add: tc_def)
  from window_body_present [OF ne present(1,2) [folded tc_def] tc0]
  obtain r0 where r0: "window_body df tc w = Inr (Some r0)" by blast
  then have "r0 \<in> set (emitted df tc w)" by (simp add: emitted_def)
  with w have mem: "r0 \<in> set rows" unfolding rows_def by auto
  then have rows_ne: "rows \<noteq> []" by auto
  obtain s0 others where df: "df = s0 # others" using ne by (cases df) auto
  have run: "avg_bp df time_chunk time_window = Inr (Some (label_rows rows))"
    using windows rows_ne
    unfolding avg_bp_def Let_def rows_def tc_def
    by (simp add: df window_loop_eval [OF ne, unfolded df])
  from mem obtain i where i: "i < length rows" and ri: "rows ! i = r0"
    by (auto simp: in_set_conv_nth)
  define r where "r = label_rows rows ! i"
  from i have rmem: "r \<in> set (label_rows rows)"
    unfolding r_def by (simp add: label_rows_length)
  from window_body_Some [OF r0] obtain sys dias where
    se: "start_window r0 = w - tc" "end_window r0 = w"
    and sys: "get_sys_bp (channel_frame d) = Inr sys"
    and dias: "get_dias_bp (channel_frame d) = Inr dias"
    and avgs: "avg_sys r0 = np_mean (map snd sys)" "avg_dias r0 = np_mean (map snd dias)"
    and am: "avg_map r0 = fdiv (fadd (avg_sys r0) (fmul (Fin 2) (avg_dias r0))) (Fin 3)"
    unfolding d_def by blast
  have sysnan: "avg_sys r0 = NaN" if "length (find_peaks (map val d)) < 2"
    using channel_sys_few [OF sys that] avgs by (simp add: np_mean_empty)
  have diasnan: "avg_dias r0 = NaN" if "length (find_peaks (reciprocal (map val d))) < 2"
    using channel_dias_few [OF dias that] avgs by (simp add: np_mean_empty)
  from few have "avg_sys r0 = NaN \<or> avg_dias r0 = NaN"
    using sysnan diasnan unfolding d_def tc_def by blast
  then have mapnan: "avg_map r0 = NaN"
    unfolding am by (auto simp: fadd_NaN_right fmul_NaN_right)
  from i have fields: "start_window r = start_window r0" "end_window r = end_window r0"
    "avg_sys r = avg_sys r0" "avg_dias r = avg_dias r0" "avg_map r = avg_map r0"
    "current_hypotensive r = (if fle (avg_map r0) (Fin 65) then 1 else 0)"
    unfolding r_def by (simp_all add: label_rows_nth ri)
  have "start_window r = w - time_chunk * 1000 div 8 \<and> end_window r = w
               \<and> avg_map r = NaN \<and> current_hypotensive r = 0
               \<and> (length (find_peaks (map val (loc_slice df (w - time_chunk * 1000 div 8) w))) < 2
                    \<longrightarrow> avg_sys r = NaN)
               \<and> (length (find_peaks (reciprocal (map val (loc_slice df (w - time_chunk * 1000 div 8) w)))) < 2
                    \<longrightarrow> avg_dias r = NaN)"
    using se mapnan sysnan diasnan unfolding fields d_def tc_def by simp
  with run rmem show ?thesis by blast
qed

theorem few_candidates_give_nan_row_witness:
  "uneven_wave \<noteq> []
   \<and> py_range (label (hd uneven_wave) + 1 * 1000 div 8) (label (last uneven_wave)) (1 * 1000 div 8)
       = Inr [125]
   \<and> (125 :: int) \<in> set [125]
   \<and> 125 - 1 * 1000 div 8 \<in> label ` set uneven_wave \<and> 125 \<in> label ` set uneven_wave
   \<and> (0 :: int) \<le> 1
   \<and> length (find_peaks (map val (loc_slice uneven_wave (125 - 1 * 1000 div 8) 125))) < 2
   \<and> (\<exists>tbl. avg_bp uneven_wave 1 1 = Inr (Some tbl)
         \<and> (\<exists>r\<in>set tbl. start_window r = 0 \<and> end_window r = 125
               \<and> avg_map r = NaN \<and> current_hypotensive r = 0 \<and> avg_sys r = NaN))"
proof -
  have ne: "uneven_wave \<noteq> []" by (simp add: uneven_wave_def)
  have rng: "py_range (label (hd uneven_wave) + 1 * 1000 div 8) (label (last uneven_wave))
               (1 * 1000 div 8) = Inr [125]"
    by code_simp
  have w: "(125 :: int) \<in> set [125]" by simp
  have p1: "125 - 1 * 1000 div 8 \<in> label ` set uneven_wave" by (simp add: uneven_wave_def)
  have p2: "125 \<in> label ` set uneven_wave" by (simp add: uneven_wave_def)
  have p3: "(0 :: int) \<le> 1" by simp
  have few: "length (find_peaks (map val (loc_slice uneven_wave (125 - 1 * 1000 div 8) 125))) < 2"
    by code_simp
  from few_candidates_give_nan_row [OF ne rng w p1 p2 p3 disjI1 [OF few]] few
  have "\<exists>tbl. avg_bp uneven_wave 1 1 = Inr (Some tbl)
         \<and> (\<exists>r\<in>set tbl. start_window r = 0 \<and> end_window r = 125
               \<and> avg_map r = NaN \<and> current_hypotensive r = 0 \<and> avg_sys r = NaN)"
    by simp blast
  with ne rng w p1 p2 p3 few show ?thesis by blast
qed

text \<open>
  C10 as stated fails: with fewer than two systolic candidates but two diastolic ones,
  \<open>avg_dias\<close> of the row is a number, not NaN.
\<close>

theorem one_sided_nan_counterexample:
  "length (find_peaks (map val (loc_slice uneven_wave 0 125))) < 2
   \<and> avg_bp uneven_wave 1 1 =
     Inr (Some [\<lparr>wave = ''a40001'', start_window = 0, end_window = 125,
                 start_window_time = 0, end_window_time = 1000000000,
                 avg_sys = NaN, avg_dias = Fin 1, avg_map = NaN,
                 all_values = [Fin 5, Fin 1, Fin 5, Fin 1, Fin 5, Fin 5],
                 current_hypotensive = 0, hypotensive_in_15 = NaN,
                 lookbacks = [], include_in_model = None\<rparr>])"
  by code_simp

section \<open>Properties of binary64 rounding\<close>

lemma pow2_pos: "0 < pow2 e"
  by (simp add: pow2_def)

lemma pow2_neg_nat: "pow2 (- int k) = 1 / 2 ^ k"
  by (simp add: pow2_def)

lemma round_half_even_le:
  assumes "0 < b" and "a \<le> n * b"
  shows "round_half_even a b \<le> n"
proof -
  define q where "q = a div b"
  define r where "r = a mod b"
  have a: "a = q * b + r" by (simp add: q_def r_def)
  have r0: "0 \<le> r" "r < b" using assms(1) by (simp_all add: r_def)
  have qn: "q \<le> n"
  proof (rule ccontr)
    assume "\<not> q \<le> n"
    then have "n + 1 \<le> q" by simp
    then have "(n + 1) * b \<le> q * b" using assms(1) by (simp add: mult_right_mono)
    with a r0 assms(2) show False by (simp add: algebra_simps)
  qed
  have up: "q + 1 \<le> n" if "0 < r"
  proof (rule ccontr)
    assume "\<not> q + 1 \<le> n"
    with qn have "q = n" by simp
    with a that assms(2) show False by simp
  qed
  show ?thesis
    unfolding round_half_even_def Let_def q_def [symmetric] r_def [symmetric]
    using qn up r0 assms(1) by auto
qed

lemma round_half_even_ge:
  assumes "0 < b" and "n * b \<le> a"
  shows "n \<le> round_half_even a b"
proof -
  define q where "q = a div b"
  define r where "r = a mod b"
  have a: "a = q * b + r" by (simp add: q_def r_def)
  have r0: "0 \<le> r" "r < b" using assms(1) by (simp_all add: r_def)
  have qn: "n \<le> q"
  proof (rule ccontr)
    assume "\<not> n \<le> q"
    then have "q + 1 \<le> n" by simp
    then have "(q + 1) * b \<le> n * b" using assms(1) by (simp add: mult_right_mono)
    with a r0 assms(2) show False by (simp add: algebra_simps)
  qed
  show ?thesis
    unfolding round_half_even_def Let_def q_def [symmetric] r_def [symmetric]
    using qn by auto
qed

lemma normalise_pos:
  assumes "0 < a" and "0 < b" and "normalise fuel a b e = (a', b', e')"
  shows "0 < a' \<and> 0 < b'"
  using assms
proof (induction fuel arbitrary: a b e)
  case 0
  then show ?case by simp
next
  case (Suc fuel)
  show ?case
  proof (cases "9007199254740992 * b \<le> a")
    case True
    with Suc.prems have "normalise fuel a (2 * b) (e + 1) = (a', b', e')" by simp
    from Suc.IH [OF _ _ this] Suc.prems show ?thesis by simp
  next
    case False
    show ?thesis
    proof (cases "a < 4503599627370496 * b")
      case True
      with False Suc.prems have "normalise fuel (2 * a) b (e - 1) = (a', b', e')" by simp
      from Suc.IH [OF _ _ this] Suc.prems show ?thesis by simp
    next
      case F2: False
      with False Suc.prems show ?thesis by simp
    qed
  qed
qed

lemma normalise_small:
  assumes "0 < b" and "a < 9007199254740992 * b"
  shows "\<exists>k\<le>fuel. normalise fuel a b e = (a * 2 ^ k, b, e - int k)
           \<and> a * 2 ^ k < 9007199254740992 * b
           \<and> (4503599627370496 * b \<le> a * 2 ^ k \<or> k = fuel)"
  using assms
proof (induction fuel arbitrary: a e)
  case 0
  then show ?case by simp
next
  case (Suc fuel)
  from Suc.prems have nb: "\<not> 9007199254740992 * b \<le> a" by simp
  show ?case
  proof (cases "a < 4503599627370496 * b")
    case True
    then have "2 * a < 9007199254740992 * b" by simp
    from Suc.IH [OF Suc.prems(1) this, of "e - 1"] obtain k where
      k: "k \<le> fuel" "normalise fuel (2 * a) b (e - 1) = (2 * a * 2 ^ k, b, e - 1 - int k)"
      "2 * a * 2 ^ k < 9007199254740992 * b"
      "4503599627370496 * b \<le> 2 * a * 2 ^ k \<or> k = fuel"
      by blast
    have "Suc k \<le> Suc fuel \<and> normalise (Suc fuel) a b e = (a * 2 ^ Suc k, b, e - int (Suc k))
           \<and> a * 2 ^ Suc k < 9007199254740992 * b
           \<and> (4503599627370496 * b \<le> a * 2 ^ Suc k \<or> Suc k = Suc fuel)"
      using k nb True by (simp add: mult.assoc mult.left_commute)
    then show ?thesis by blast
  next
    case False
    with nb Suc.prems have "0 \<le> Suc fuel \<and> normalise (Suc fuel) a b e = (a * 2 ^ 0, b, e - int 0)
           \<and> a * 2 ^ 0 < 9007199254740992 * b
           \<and> (4503599627370496 * b \<le> a * 2 ^ 0 \<or> (0::nat) = Suc fuel)"
      by simp
    then show ?thesis by blast
  qed
qed

lemma float64_pos_small:
  assumes "0 < x" and "x < 9007199254740992" and "quotient_of x = (a, b)"
  obtains k where "k \<le> 1100" and "float64_pos x = of_int (round_half_even (a * 2 ^ k) b) / 2 ^ k"
    and "a * 2 ^ k < 9007199254740992 * b"
    and "4503599627370496 * b \<le> a * 2 ^ k \<or> k = 1100"
    and "0 < b" and "x = of_int a / of_int b"
proof -
  from assms(3) have b: "0 < b" and x: "x = of_int a / of_int b"
    by (simp_all add: quotient_of_denom_pos quotient_of_div)
  from assms(2) b have "(of_int a :: rat) < 9007199254740992 * of_int b"
    unfolding x by (simp add: pos_divide_less_eq)
  then have "(of_int a :: rat) < of_int (9007199254740992 * b)" by simp
  then have small: "a < 9007199254740992 * b" by (simp only: of_int_less_iff)
  from normalise_small [OF b small, of 1100 0] obtain k where
    k: "k \<le> 1100" "normalise 1100 a b 0 = (a * 2 ^ k, b, 0 - int k)"
    "a * 2 ^ k < 9007199254740992 * b" "4503599627370496 * b \<le> a * 2 ^ k \<or> k = 1100"
    by blast
  have "float64_pos x = of_int (round_half_even (a * 2 ^ k) b) / 2 ^ k"
    by (simp add: float64_pos_def assms(3) k(2) pow2_neg_nat)
  with k b x show ?thesis by (rule_tac that) auto
qed

lemma float64_pos_nonneg:
  assumes "0 < x"
  shows "0 \<le> float64_pos x"
proof -
  obtain a b where q: "quotient_of x = (a, b)" by (cases "quotient_of x")
  then have b: "0 < b" and x: "x = of_int a / of_int b"
    by (simp_all add: quotient_of_denom_pos quotient_of_div)
  from assms b have a: "0 < a" unfolding x by (simp add: zero_less_divide_iff)
  obtain a' b' e' where n: "normalise 1100 a b 0 = (a', b', e')"
    by (cases "normalise 1100 a b 0")
  from normalise_pos [OF a b n] have "0 < a'" "0 < b'" by simp_all
  then have "0 \<le> round_half_even a' b'" by (intro round_half_even_ge) simp_all
  then show ?thesis using pow2_pos [of e'] by (simp add: float64_pos_def q n)
qed

lemma float64_pos_grid:
  assumes x: "0 < x" and small: "x * 2 ^ j < 9007199254740992" and j: "j \<le> 52"
  shows "(x \<le> of_int n / 2 ^ j \<longrightarrow> float64_pos x \<le> of_int n / 2 ^ j)
       \<and> (of_int n / 2 ^ j \<le> x \<longrightarrow> of_int n / 2 ^ j \<le> float64_pos x)"
proof -
  obtain a b where q: "quotient_of x = (a, b)" by (cases "quotient_of x")
  have "x * 1 \<le> x * 2 ^ j" using x by (intro mult_left_mono) simp_all
  with small have x53: "x < 9007199254740992" by simp
  from float64_pos_small [OF x x53 q] obtain k where
    k: "k \<le> 1100" and f: "float64_pos x = of_int (round_half_even (a * 2 ^ k) b) / 2 ^ k"
    and up: "a * 2 ^ k < 9007199254740992 * b"
    and lo: "4503599627370496 * b \<le> a * 2 ^ k \<or> k = 1100"
    and b: "0 < b" and xq: "x = of_int a / of_int b"
    by blast
  from x b have a: "0 < a" unfolding xq by (simp add: zero_less_divide_iff)
  from small b have "(of_int a :: rat) * 2 ^ j < 9007199254740992 * of_int b"
    unfolding xq by (simp add: pos_divide_less_eq)
  then have "(of_int (a * 2 ^ j) :: rat) < of_int (9007199254740992 * b)" by simp
  then have sj: "a * 2 ^ j < 9007199254740992 * b" by (simp only: of_int_less_iff)
  have jk: "j \<le> k"
  proof (rule ccontr)
    assume "\<not> j \<le> k"
    then have kj: "Suc k \<le> j" by simp
    with j k have "k \<noteq> 1100" by simp
    with lo have l: "4503599627370496 * b \<le> a * 2 ^ k" by simp
    from kj have "(2 :: int) ^ Suc k \<le> 2 ^ j" by (intro power_increasing) simp_all
    with a have "a * 2 ^ Suc k \<le> a * 2 ^ j" by (intro mult_left_mono) simp_all
    with sj l show False by simp
  qed
  then obtain t where t: "k = j + t" by (auto simp: le_iff_add)
  have le: "float64_pos x \<le> of_int n / 2 ^ j" if "x \<le> of_int n / 2 ^ j"
  proof -
    from that b have "(of_int a :: rat) * 2 ^ j \<le> of_int n * of_int b"
      unfolding xq by (simp add: pos_divide_le_eq pos_le_divide_eq mult.commute)
    then have "(of_int (a * 2 ^ j) :: rat) \<le> of_int (n * b)" by simp
    then have "a * 2 ^ j \<le> n * b" by (simp only: of_int_le_iff)
    then have "a * 2 ^ j * 2 ^ t \<le> n * b * 2 ^ t" by (intro mult_right_mono) simp_all
    then have "a * 2 ^ k \<le> (n * 2 ^ t) * b" by (simp add: t power_add mult_ac)
    from round_half_even_le [OF b this]
    have "(of_int (round_half_even (a * 2 ^ k) b) :: rat) \<le> of_int (n * 2 ^ t)"
      by (simp only: of_int_le_iff)
    then have "(of_int (round_half_even (a * 2 ^ k) b) :: rat) / 2 ^ k \<le> of_int (n * 2 ^ t) / 2 ^ k"
      by (intro divide_right_mono) simp_all
    also have "(of_int (n * 2 ^ t) :: rat) / 2 ^ k = of_int n / 2 ^ j"
      by (simp add: t power_add)
    finally show ?thesis unfolding f .
  qed
  have ge: "of_int n / 2 ^ j \<le> float64_pos x" if "of_int n / 2 ^ j \<le> x"
  proof -
    from that b have "of_int n * of_int b \<le> (of_int a :: rat) * 2 ^ j"
      unfolding xq by (simp add: pos_divide_le_eq pos_le_divide_eq mult.commute)
    then have "(of_int (n * b) :: rat) \<le> of_int (a * 2 ^ j)" by simp
    then have "n * b \<le> a * 2 ^ j" by (simp only: of_int_le_iff)
    then have "n * b * 2 ^ t \<le> a * 2 ^ j * 2 ^ t" by (intro mult_right_mono) simp_all
    then have "(n * 2 ^ t) * b \<le> a * 2 ^ k" by (simp add: t power_add mult_ac)
    from round_half_even_ge [OF b this]
    have "(of_int (n * 2 ^ t) :: rat) \<le> of_int (round_half_even (a * 2 ^ k) b)"
      by (simp only: of_int_le_iff)
    then have "(of_int (n * 2 ^ t) :: rat) / 2 ^ k \<le> of_int (round_half_even (a * 2 ^ k) b) / 2 ^ k"
      by (intro divide_right_mono) simp_all
    also have "(of_int (n * 2 ^ t) :: rat) / 2 ^ k = of_int n / 2 ^ j"
      by (simp add: t power_add)
    finally show ?thesis unfolding f .
  qed
  from le ge show ?thesis by blast
qed

lemma float64_nonneg: "0 \<le> x \<Longrightarrow> 0 \<le> float64 x"
  using float64_pos_nonneg [of x] by (simp add: float64_def)

lemma float64_nonpos: "x \<le> 0 \<Longrightarrow> float64 x \<le> 0"
  using float64_pos_nonneg [of "- x"] by (simp add: float64_def)

lemma float64_le_int:
  assumes "x \<le> of_int n" and "0 \<le> n" and "x < 9007199254740992"
  shows "float64 x \<le> of_int n"
proof (cases "0 < x")
  case True
  with float64_pos_grid [of x 0 n] assms show ?thesis by (simp add: float64_def)
next
  case False
  then have "float64 x \<le> 0" by (intro float64_nonpos) simp
  with assms(2) show ?thesis by simp
qed

lemma float64_of_int:
  assumes "\<bar>z\<bar> < 9007199254740992"
  shows "float64 (of_int z) = of_int z"
proof -
  have pos: "float64_pos (of_int k) = of_int k" if "0 < k" "k < 9007199254740992" for k
  proof -
    from that have "(0 :: rat) < of_int k" "(of_int k :: rat) * 2 ^ 0 < 9007199254740992"
      by simp_all
    from float64_pos_grid [OF this, of k] show ?thesis by simp
  qed
  consider "z = 0" | "0 < z" | "z < 0" by linarith
  then show ?thesis
  proof cases
    case 1
    then show ?thesis by (simp add: float64_def)
  next
    case 2
    with assms pos [of z] show ?thesis by (simp add: float64_def)
  next
    case 3
    with assms pos [of "- z"] show ?thesis by (simp add: float64_def)
  qed
qed

lemma float64_of_nat: "i < 9007199254740992 \<Longrightarrow> float64 (of_nat i) = of_nat i"
  using float64_of_int [of "int i"] by simp

text \<open>A quotient of whole seconds by 60 below a day: rounding does not move it across an
  integer, nor to zero.\<close>

lemma float64_minutes_gt:
  assumes "0 \<le> s" and "s < 86400"
  shows "float64 (of_int s / 60) > of_int t \<longleftrightarrow> (of_int s / 60 :: rat) > of_int t"
proof (cases "s = 0")
  case True
  then show ?thesis by (simp add: float64_def)
next
  case False
  with assms have s: "0 < s" by simp
  define x :: rat where "x = of_int s / 60"
  have x0: "0 < x" using s by (simp add: x_def)
  have x64: "x * 2 ^ 6 < 9007199254740992" using assms(2) by (simp add: x_def)
  have x1: "x * 2 ^ 0 < 9007199254740992" using assms(2) by (simp add: x_def)
  have fx: "float64 x = float64_pos x" using x0 by (simp add: float64_def)
  show ?thesis unfolding x_def [symmetric]
  proof
    assume gt: "float64 x > of_int t"
    show "x > of_int t"
    proof (rule ccontr)
      assume "\<not> x > of_int t"
      then have le: "x \<le> of_int t" by simp
      with float64_pos_grid [OF x0 x1, of t] have "float64_pos x \<le> of_int t" by simp
      with gt fx show False by simp
    qed
  next
    assume gt: "x > of_int t"
    show "float64 x > of_int t"
    proof (cases "t < 0")
      case True
      moreover have "0 \<le> float64 x" using x0 by (intro float64_nonneg) simp
      ultimately show ?thesis by (simp add: order.strict_trans1 [rotated])
    next
      case False
      from gt have "(of_int (60 * t) :: rat) < of_int s" by (simp add: x_def)
      then have "60 * t < s" by (simp only: of_int_less_iff)
      then have "60 * t + 1 \<le> s" by simp
      then have "(of_int (60 * t + 1) :: rat) \<le> of_int s" by (simp only: of_int_le_iff)
      then have "of_int (64 * t + 1) / 2 ^ 6 \<le> x" using False by (simp add: x_def)
      with float64_pos_grid [OF x0 x64, of "64 * t + 1"]
      have "of_int (64 * t + 1) / 2 ^ 6 \<le> float64_pos x" by simp
      moreover have "(of_int t :: rat) < of_int (64 * t + 1) / 2 ^ 6" by simp
      ultimately show ?thesis unfolding fx by simp
    qed
  qed
qed

lemma float64_minutes_zero:
  assumes "0 \<le> s" and "s < 86400"
  shows "float64 (of_int s / 60) = 0 \<longleftrightarrow> s = 0"
proof -
  from float64_minutes_gt [OF assms, of 0] have "0 < float64 (of_int s / 60) \<longleftrightarrow> 0 < s"
    by simp
  moreover have "0 \<le> float64 (of_int s / 60)" using assms by (intro float64_nonneg) simp
  ultimately show ?thesis using assms by auto
qed

section \<open>Properties of the lookback\<close>

lemma py_int_of_int: "py_int (of_int z) = z"
  by (simp add: py_int_def)

lemma py_int_le:
  assumes "x \<le> of_int n" and "0 \<le> n"
  shows "py_int x \<le> n"
proof (cases "0 \<le> x")
  case True
  with assms(1) show ?thesis by (simp add: py_int_def floor_le_iff)
next
  case False
  from assms(1) have "\<lceil>x\<rceil> \<le> n" by (simp add: ceiling_le_iff)
  with False show ?thesis by (simp add: py_int_def)
qed

lemma lb_index_le:
  assumes "0 \<le> n" and "i < 9007199254740992"
  shows "py_int (float64 (float64 (of_nat i) - n)) \<le> int i"
proof -
  have fi: "float64 (of_nat i) = of_nat i" using assms(2) by (rule float64_of_nat)
  have "rat_of_nat i - n \<le> of_int (int i)" using assms(1) by simp
  moreover have "rat_of_nat i - n < 9007199254740992"
  proof -
    have "rat_of_nat i - n \<le> rat_of_nat i" using assms(1) by simp
    also have "rat_of_nat i < 9007199254740992" using assms(2) by simp
    finally show ?thesis .
  qed
  ultimately have "float64 (rat_of_nat i - n) \<le> of_int (int i)"
    by (intro float64_le_int) simp_all
  then show ?thesis unfolding fi by (intro py_int_le) simp_all
qed

lemma lb_value_eval:
  assumes "0 \<le> n" and "i < length df" and "length df \<le> 9007199254740992"
  shows "lb_value df n i =
           Inr (if py_int (float64 (of_nat i - n)) < 0 then NaN
                else avg_map (df ! nat (py_int (float64 (of_nat i - n)))))"
proof -
  from assms(2,3) have i: "i < 9007199254740992" by simp
  have fi: "float64 (of_nat i) = of_nat i" using i by (rule float64_of_nat)
  from lb_index_le [OF assms(1) i] assms(2)
  have up: "py_int (float64 (of_nat i - n)) < int (length df)" unfolding fi by simp
  show ?thesis
  proof (cases "py_int (float64 (of_nat i - n)) < 0")
    case True
    then show ?thesis by (simp add: lb_value_def fi)
  next
    case False
    with up show ?thesis by (simp add: lb_value_def fi iloc_def)
  qed
qed

lemma lb_loop_eval:
  assumes "0 \<le> n" and "length df \<le> 9007199254740992" and "\<forall>i\<in>set is. i < length df"
  shows "lb_loop df n is =
           Inr (map (\<lambda>i. if py_int (float64 (of_nat i - n)) < 0 then NaN
                          else avg_map (df ! nat (py_int (float64 (of_nat i - n))))) is)"
  using assms(3)
proof (induction "is")
  case Nil
  show ?case by simp
next
  case (Cons i "is")
  then show ?case by (simp add: lb_value_eval [OF assms(1) _ assms(2)])
qed

lemma lb_value_error: "lb_value df n i = Inl e \<Longrightarrow> e = IndexError"
  by (auto simp: lb_value_def iloc_def Let_def split: if_splits)

lemma lb_loop_error: "lb_loop df n is = Inl e \<Longrightarrow> e = IndexError"
proof (induction "is" arbitrary: e)
  case Nil
  then show ?case by simp
next
  case (Cons i "is")
  then show ?case by (auto split: sum.splits dest: lb_value_error)
qed

lemma map2_upt:
  "map2 f xs (map g [0..<length xs]) = map (\<lambda>i. f (xs ! i) (g i)) [0..<length xs]"
  by (rule nth_equalityI) simp_all

lemma two_rows:
  assumes "2 \<le> length df"
  shows "df = (df ! 0) # (df ! 1) # drop 2 df"
proof -
  from assms obtain r0 r1 others where "df = r0 # r1 # others"
    by (cases df; cases "tl df") auto
  then show ?thesis by simp
qed

lemma timedelta_seconds_whole:
  assumes "0 \<le> secs" and "secs < 86400"
  shows "timedelta_seconds (secs * 1000000000) = secs"
proof -
  from assms have "0 \<le> secs * 1000000000" "secs * 1000000000 < 86400 * 1000000000" by simp_all
  then have "secs * 1000000000 mod (86400 * 1000000000) = secs * 1000000000"
    by (intro mod_pos_pos_trivial) simp_all
  then show ?thesis by (simp add: timedelta_seconds_def)
qed

lemma create_lookback_unfold:
  assumes len: "2 \<le> length df"
    and diff: "start_window_time (df ! 1) - start_window_time (df ! 0) = secs * 1000000000"
    and secs: "0 \<le> secs" "secs < 86400"
  shows "create_lookback df time =
     (if float64 (of_int secs / 60) > of_int time then Inl ValueError
      else if float64 (of_int secs / 60) = 0 then Inl ZeroDivisionError
      else (case lb_loop df (float64 (float64 (of_int time) / float64 (of_int secs / 60)))
                  [0..<length df] of
              Inl e \<Rightarrow> Inl e
            | Inr lb_array \<Rightarrow>
                Inr (map2 (\<lambda>r v. r\<lparr>lookbacks := set_column (lb_name time) v (lookbacks r)\<rparr>)
                       df lb_array)))"
proof -
  define r0 r1 others where "r0 = df ! 0" and "r1 = df ! 1" and "others = drop 2 df"
  have df: "df = r0 # r1 # others" unfolding r0_def r1_def others_def by (rule two_rows [OF len])
  from diff have d: "start_window_time r1 - start_window_time r0 = secs * 1000000000"
    by (simp add: r0_def r1_def)
  have ts: "timedelta_seconds (start_window_time r1 - start_window_time r0) = secs"
    unfolding d by (rule timedelta_seconds_whole [OF secs])
  show ?thesis unfolding df by (simp add: create_lookback_def Let_def ts)
qed

lemma create_lookback_eval:
  assumes len: "2 \<le> length df" and rows: "length df \<le> 9007199254740992"
    and diff: "start_window_time (df ! 1) - start_window_time (df ! 0) = secs * 1000000000"
    and pos: "0 < secs" and day: "secs < 86400"
    and ge: "of_int secs / 60 \<le> (of_int time :: rat)" and tb: "time < 9007199254740992"
    and n: "n = float64 (of_int time / float64 (of_int secs / 60))"
  shows "create_lookback df time =
     Inr (map (\<lambda>i. (df ! i)\<lparr>lookbacks :=
                 set_column (lb_name time)
                   (if py_int (float64 (of_nat i - n)) < 0 then NaN
                    else avg_map (df ! nat (py_int (float64 (of_nat i - n)))))
                   (lookbacks (df ! i))\<rparr>) [0..<length df])"
    and "0 \<le> n"
proof -
  from pos have s0: "0 \<le> secs" by simp
  define td where "td = float64 (of_int secs / 60)"
  have a: "\<not> td > of_int time"
    unfolding td_def float64_minutes_gt [OF s0 day] using ge by simp
  have b: "td \<noteq> 0" unfolding td_def float64_minutes_zero [OF s0 day] using pos by simp
  have "0 \<le> td" unfolding td_def using s0 by (intro float64_nonneg) simp
  with b have tdp: "0 < td" by simp
  from pos ge have tp: "0 < time"
  proof -
    from pos have "(0 :: rat) < of_int secs / 60" by simp
    with ge have "(0 :: rat) < of_int time" by linarith
    then show ?thesis by simp
  qed
  with tb have ft: "float64 (of_int time) = of_int time" by (intro float64_of_int) simp
  have n': "n = float64 (float64 (of_int time) / td)" unfolding n ft td_def ..
  show n0: "0 \<le> n" unfolding n' ft using tp tdp by (intro float64_nonneg) simp
  have loop: "lb_loop df n [0..<length df] =
      Inr (map (\<lambda>i. if py_int (float64 (of_nat i - n)) < 0 then NaN
                          else avg_map (df ! nat (py_int (float64 (of_nat i - n))))) [0..<length df])"
    by (rule lb_loop_eval [OF n0 rows]) simp
  have "create_lookback df time =
      (case lb_loop df n [0..<length df] of
              Inl e \<Rightarrow> Inl e
            | Inr lb_array \<Rightarrow>
                Inr (map2 (\<lambda>r v. r\<lparr>lookbacks := set_column (lb_name time) v (lookbacks r)\<rparr>)
                       df lb_array))"
    unfolding create_lookback_unfold [OF len diff s0 day] td_def [symmetric] n' [symmetric]
    using a b by (simp only: if_False)
  also have "\<dots> =
      Inr (map2 (\<lambda>r v. r\<lparr>lookbacks := set_column (lb_name time) v (lookbacks r)\<rparr>) df
            (map (\<lambda>i. if py_int (float64 (of_nat i - n)) < 0 then NaN
                          else avg_map (df ! nat (py_int (float64 (of_nat i - n))))) [0..<length df]))"
    unfolding loop by (simp only: sum.case)
  finally show "create_lookback df time =
     Inr (map (\<lambda>i. (df ! i)\<lparr>lookbacks :=
                 set_column (lb_name time)
                   (if py_int (float64 (of_nat i - n)) < 0 then NaN
                    else avg_map (df ! nat (py_int (float64 (of_nat i - n)))))
                   (lookbacks (df ! i))\<rparr>) [0..<length df])"
    unfolding map2_upt .
qed

text \<open>
  C2 (as the code has it). For a table of at least two and fewer than \<open>2^53\<close> rows whose
  first two timestamps are a whole number \<open>secs > 0\<close> of seconds and less than a day apart,
  and a lookback of \<open>time \<ge> secs / 60\<close> minutes below \<open>2^53\<close>, \<open>create_lookback\<close> computes
  \<open>n_skips\<close> as the binary64 quotient of \<open>time\<close> by the binary64 spacing in minutes and
  appends the column \<open>lb_<time>_map\<close>. Its value in row \<open>i\<close> is \<open>avg_map\<close> of row
  \<open>int(i - n_skips)\<close>, the binary64 difference truncated towards zero, and is missing when
  that is negative; the row read is never after row \<open>i\<close>. When the computed \<open>n_skips\<close> is a
  whole number this is row \<open>i - n_skips\<close>, missing for \<open>i < n_skips\<close>.
\<close>

theorem lookback_row_is_truncated_difference:
  assumes len: "2 \<le> length df" and rows: "length df \<le> 9007199254740992"
    and diff: "start_window_time (df ! 1) - start_window_time (df ! 0) = secs * 1000000000"
    and pos: "0 < secs" and day: "secs < 86400"
    and ge: "of_int secs / 60 \<le> (of_int time :: rat)" and tb: "time < 9007199254740992"
    and n: "n = float64 (of_int time / float64 (of_int secs / 60))"
  shows "create_lookback df time =
     Inr (map (\<lambda>i. (df ! i)\<lparr>lookbacks :=
                 set_column (''lb_'' @ str_int time @ ''_map'')
                   (if py_int (float64 (of_nat i - n)) < 0 then NaN
                    else avg_map (df ! nat (py_int (float64 (of_nat i - n)))))
                   (lookbacks (df ! i))\<rparr>) [0..<length df])
   \<and> (\<forall>i<length df. py_int (float64 (of_nat i - n)) \<le> int i)
   \<and> (\<forall>k. n = of_int k \<and> k < 9007199254740992 \<longrightarrow>
        (\<forall>i<length df.
           (if py_int (float64 (of_nat i - n)) < 0 then NaN
            else avg_map (df ! nat (py_int (float64 (of_nat i - n))))) =
           (if int i < k then NaN else avg_map (df ! (i - nat k)))))"
proof (intro conjI allI impI)
  note ev = create_lookback_eval [OF len rows diff pos day ge tb n]
  from ev(1) show "create_lookback df time =
     Inr (map (\<lambda>i. (df ! i)\<lparr>lookbacks :=
                 set_column (''lb_'' @ str_int time @ ''_map'')
                   (if py_int (float64 (of_nat i - n)) < 0 then NaN
                    else avg_map (df ! nat (py_int (float64 (of_nat i - n)))))
                   (lookbacks (df ! i))\<rparr>) [0..<length df])"
    unfolding lb_name_def .
  have n0: "0 \<le> n" by (rule ev(2))
  show "py_int (float64 (of_nat i - n)) \<le> int i" if "i < length df" for i
  proof -
    from that rows have i: "i < 9007199254740992" by simp
    from lb_index_le [OF n0 i] show ?thesis by (simp add: float64_of_nat [OF i])
  qed
  show "(if py_int (float64 (of_nat i - n)) < 0 then NaN
            else avg_map (df ! nat (py_int (float64 (of_nat i - n))))) =
           (if int i < k then NaN else avg_map (df ! (i - nat k)))"
    if whole: "n = of_int k \<and> k < 9007199254740992" and i: "i < length df" for k i
  proof -
    from whole n0 have k0: "0 \<le> k" by simp
    from i rows have ib: "int i < 9007199254740992" by simp
    have "rat_of_nat i - n = of_int (int i - k)" using whole by simp
    moreover from whole have kb: "k < 9007199254740992" by simp
    have "\<bar>int i - k\<bar> < 9007199254740992" using ib k0 kb by linarith
    ultimately have "float64 (rat_of_nat i - n) = of_int (int i - k)"
      by (simp only: float64_of_int)
    then have p: "py_int (float64 (rat_of_nat i - n)) = int i - k"
      by (simp only: py_int_of_int)
    from k0 have "nat (int i - k) = i - nat k" by linarith
    then show ?thesis unfolding p by simp
  qed
qed

theorem lookback_row_is_truncated_difference_witness:
  "2 \<le> length (spaced_table 4 300) \<and> length (spaced_table 4 300) \<le> 9007199254740992
   \<and> start_window_time (spaced_table 4 300 ! 1) - start_window_time (spaced_table 4 300 ! 0)
        = 300 * 1000000000
   \<and> (0 :: int) < 300 \<and> (300 :: int) < 86400
   \<and> (of_int 300 / 60 :: rat) \<le> of_int 10 \<and> (10 :: int) < 9007199254740992
   \<and> (2 :: rat) = float64 (of_int 10 / float64 (of_int 300 / 60))
   \<and> (2 :: rat) = of_int 2 \<and> (2 :: int) < 9007199254740992
   \<and> map_sum id (map lookbacks) (create_lookback (spaced_table 4 300) 10) =
       Inr [[(''lb_10_map'', NaN)], [(''lb_10_map'', NaN)],
            [(''lb_10_map'', Fin 10)], [(''lb_10_map'', Fin 11)]]
   \<and> (\<exists>df'. create_lookback (spaced_table 4 300) 10 = Inr df' \<and> length df' = 4)"
proof -
  have l4: "length (spaced_table 4 300) = 4" by (simp add: spaced_table_def)
  have len: "2 \<le> length (spaced_table 4 300)" by (simp add: l4)
  have rows: "length (spaced_table 4 300) \<le> 9007199254740992" by (simp add: l4)
  have diff: "start_window_time (spaced_table 4 300 ! 1) - start_window_time (spaced_table 4 300 ! 0)
        = 300 * 1000000000"
    by code_simp
  have pos: "(0 :: int) < 300" and day: "(300 :: int) < 86400" by simp_all
  have ge: "(of_int 300 / 60 :: rat) \<le> of_int 10" by simp
  have tb: "(10 :: int) < 9007199254740992" by simp
  have n: "(2 :: rat) = float64 (of_int 10 / float64 (of_int 300 / 60))" by code_simp
  have run: "map_sum id (map lookbacks) (create_lookback (spaced_table 4 300) 10) =
       Inr [[(''lb_10_map'', NaN)], [(''lb_10_map'', NaN)],
            [(''lb_10_map'', Fin 10)], [(''lb_10_map'', Fin 11)]]"
    by code_simp
  from lookback_row_is_truncated_difference [OF len rows diff pos day ge tb n]
  have "\<exists>df'. create_lookback (spaced_table 4 300) 10 = Inr df' \<and> length df' = 4"
    using l4 by simp
  with len rows diff ge n run show ?thesis by simp
qed

text \<open>
  C2 as stated fails for a fractional \<open>n_skips\<close>: with rows two minutes apart and a
  lookback of three minutes, \<open>n_skips\<close> is 1.5 and truncates to 1, but rows 2 and 3 take
  \<open>avg_map\<close> of rows 0 and 1, not of rows 1 and 2.
\<close>

theorem fractional_lookback_counterexample:
  "start_window_time (spaced_table 4 120 ! 1) - start_window_time (spaced_table 4 120 ! 0)
      = 120 * 1000000000
   \<and> map_sum id (map lookbacks) (create_lookback (spaced_table 4 120) 3) =
       Inr [[(''lb_3_map'', NaN)], [(''lb_3_map'', Fin 10)],
            [(''lb_3_map'', Fin 10)], [(''lb_3_map'', Fin 11)]]
   \<and> py_int (3 / (120 / 60)) = 1
   \<and> avg_map (spaced_table 4 120 ! (2 - 1)) = Fin 11
   \<and> avg_map (spaced_table 4 120 ! (3 - 1)) = Fin 12"
  by code_simp

text \<open>
  Rounding alone can move the row as well: with rows 92 seconds apart and a lookback of
  23 minutes the exact quotient is 15, the computed one is just below it, and rows 14 and
  15 both read row 0.
\<close>

lemma rounded_quotient_example:
  "float64 (of_int 23 / float64 (of_int 92 / 60)) = 8444249301319679 / 562949953421312
   \<and> map_sum id (map (map snd \<circ> lookbacks)) (create_lookback (spaced_table 16 92) 23) =
       Inr [[NaN], [NaN], [NaN], [NaN], [NaN], [NaN], [NaN], [NaN], [NaN], [NaN],
            [NaN], [NaN], [NaN], [NaN], [Fin 10], [Fin 10]]"
  by code_simp

text \<open>
  C9 (as the code has it). For a table of at least two rows whose first two timestamps
  are a whole number of seconds and less than a day apart, so that the spacing is
  \<open>secs / 60\<close> minutes, \<open>create_lookback\<close> raises the ValueError exactly when the lookback is
  strictly less than the spacing; when the lookback equals or exceeds a spacing that is
  positive (lookback and row count below \<open>2^53\<close>), no error is raised and the call returns
  the table with all its rows.
\<close>

theorem lookback_shorter_than_spacing_raises:
  assumes len: "2 \<le> length df"
    and diff: "start_window_time (df ! 1) - start_window_time (df ! 0) = secs * 1000000000"
    and secs: "0 \<le> secs" "secs < 86400"
  shows "(create_lookback df time = Inl ValueError \<longleftrightarrow> (of_int time :: rat) < of_int secs / 60)
       \<and> (of_int secs / 60 \<le> (of_int time :: rat) \<and> 0 < secs
            \<and> time < 9007199254740992 \<and> length df \<le> 9007199254740992 \<longrightarrow>
            (\<exists>df'. create_lookback df time = Inr df' \<and> length df' = length df))"
proof (intro conjI impI)
  note unf = create_lookback_unfold [OF len diff secs, of time]
  note gt = float64_minutes_gt [OF secs, of time]
  show "create_lookback df time = Inl ValueError \<longleftrightarrow> (of_int time :: rat) < of_int secs / 60"
  proof (cases "(of_int time :: rat) < of_int secs / 60")
    case True
    with gt show ?thesis unfolding unf by simp
  next
    case False
    with gt have ng: "\<not> float64 (of_int secs / 60) > of_int time" by simp
    have "create_lookback df time \<noteq> Inl ValueError"
    proof (cases "float64 (of_int secs / 60) = 0")
      case True
      with ng show ?thesis unfolding unf by simp
    next
      case nz: False
      show ?thesis
      proof
        assume "create_lookback df time = Inl ValueError"
        with ng nz have "lb_loop df (float64 (float64 (of_int time) / float64 (of_int secs / 60)))
                  [0..<length df] = Inl ValueError"
          unfolding unf by (simp split: sum.splits)
        from lb_loop_error [OF this] show False by simp
      qed
    qed
    with False show ?thesis by simp
  qed
  assume a: "of_int secs / 60 \<le> (of_int time :: rat) \<and> 0 < secs
            \<and> time < 9007199254740992 \<and> length df \<le> 9007199254740992"
  from create_lookback_eval(1) [OF len _ diff _ secs(2) _ _ refl, of time] a
  show "\<exists>df'. create_lookback df time = Inr df' \<and> length df' = length df" by simp
qed

theorem lookback_shorter_than_spacing_raises_witness:
  "2 \<le> length (spaced_table 4 300)
   \<and> start_window_time (spaced_table 4 300 ! 1) - start_window_time (spaced_table 4 300 ! 0)
        = 300 * 1000000000
   \<and> (0 :: int) \<le> 300 \<and> (300 :: int) < 86400
   \<and> (of_int 3 :: rat) < of_int 300 / 60
   \<and> create_lookback (spaced_table 4 300) 3 = Inl ValueError
   \<and> (of_int 300 / 60 :: rat) \<le> of_int 5 \<and> (0 :: int) < 300
   \<and> (5 :: int) < 9007199254740992 \<and> length (spaced_table 4 300) \<le> 9007199254740992
   \<and> (\<exists>df'. create_lookback (spaced_table 4 300) 5 = Inr df' \<and> length df' = 4)
   \<and> create_lookback (spaced_table 4 300) 5 \<noteq> Inl ValueError"
proof -
  have l4: "length (spaced_table 4 300) = 4" by (simp add: spaced_table_def)
  have len: "2 \<le> length (spaced_table 4 300)" by (simp add: l4)
  have diff: "start_window_time (spaced_table 4 300 ! 1) - start_window_time (spaced_table 4 300 ! 0)
        = 300 * 1000000000"
    by code_simp
  have secs: "(0 :: int) \<le> 300" "(300 :: int) < 86400" by simp_all
  have lt: "(of_int 3 :: rat) < of_int 300 / 60" by simp
  have ge: "(of_int 300 / 60 :: rat) \<le> of_int 5" by simp
  note t3 = lookback_shorter_than_spacing_raises [OF len diff secs, of 3]
  note t5 = lookback_shorter_than_spacing_raises [OF len diff secs, of 5]
  from t3 lt have a: "create_lookback (spaced_table 4 300) 3 = Inl ValueError" by blast
  from t5 ge have b: "\<exists>df'. create_lookback (spaced_table 4 300) 5 = Inr df' \<and> length df' = 4"
    using l4 by simp
  then have c: "create_lookback (spaced_table 4 300) 5 \<noteq> Inl ValueError" by auto
  from len diff lt a ge b c l4 show ?thesis by simp
qed

text \<open>
  C9 as stated fails for a spacing of zero: the first two rows carry the same timestamp,
  the lookback of one minute is not below the spacing, and the call ends in a
  ZeroDivisionError.
\<close>

theorem zero_spacing_counterexample:
  "2 \<le> length (spaced_table 4 0)
   \<and> start_window_time (spaced_table 4 0 ! 1) - start_window_time (spaced_table 4 0 ! 0) = 0
   \<and> create_lookback (spaced_table 4 0) 1 = Inl ZeroDivisionError"
  by code_simp

text \<open>
  The spacing is read from the \<open>seconds\<close> field of the time difference, which leaves the
  whole days out: rows 25 hours apart count as one hour apart, so a lookback of 90 minutes
  is accepted, and rows exactly one day apart count as zero apart. The statements above
  say nothing about such tables.
\<close>

lemma seconds_field_examples:
  "start_window_time (spaced_table 4 90000 ! 1) - start_window_time (spaced_table 4 90000 ! 0)
     = 90000 * 1000000000
   \<and> timedelta_seconds (90000 * 1000000000) = 3600
   \<and> map_sum id length (create_lookback (spaced_table 4 90000) 90) = Inr 4
   \<and> create_lookback (spaced_table 4 86400) 1440 = Inl ZeroDivisionError"
  by code_simp

end
